theory Spec2Isabelle
  imports Main "HOL-Library.Product_Lexorder"
begin

section \<open>Data model (network/models.py)\<close>

text \<open>
  A table is the list of its rows. Only the columns that the toggle engine, the counter
  ledger and the feed read or write are kept: the display columns of a user (username,
  email, picture) play no part in what follows. The three counters are
  \<^verbatim>\<open>PositiveIntegerField\<close>s: integers that the database refuses to store when negative.
  A timestamp is a point of a discrete time line (an integer).
\<close>

record user_row =
  user_id :: int
  post_count :: int
  followers_count :: int
  following_count :: int

record post_row =
  post_id :: int
  post_user :: int
  timestamp :: int
  content :: string
  like_count :: int
  comment_count :: int

text \<open>
  The statements that the model methods send to the database. The connection keeps a
  journal of them, each with the flag saying whether it ran inside a
  \<^verbatim>\<open>transaction.atomic()\<close> block.
\<close>

datatype statement =
    Followers_exists | Followers_add | Followers_remove
  | Likes_exists | Likes_add | Likes_remove
  | Update_following_count | Update_followers_count | Update_like_count
  | Update_post_count | Delete_post | Save_post | Refresh_post

text \<open>
  \<open>follows\<close> is the table behind \<^verbatim>\<open>User.followers\<close>: the row \<open>(a, t)\<close> says that
  \<open>a\<close> is among the followers of \<open>t\<close>. \<open>likes\<close> is the table behind
  \<^verbatim>\<open>Post.likes\<close>: the row \<open>(u, p)\<close> says that user \<open>u\<close> likes post \<open>p\<close>.
\<close>

record db =
  users :: "user_row list"
  posts :: "post_row list"
  follows :: "(int \<times> int) list"
  likes :: "(int \<times> int) list"
  in_atomic :: bool
  journal :: "(statement \<times> bool) list"

datatype error = IntegrityError | DoesNotExist | TypeError | AttributeError | ValueError | KeyError
  | OverflowError | UnicodeDecodeError

definition execute :: "statement \<Rightarrow> db \<Rightarrow> db" where
  "execute s d = d\<lparr>journal := journal d @ [(s, in_atomic d)]\<rparr>"

text \<open>
  \<^verbatim>\<open>with transaction.atomic():\<close> runs its body with the connection inside an atomic
  block and restores the previous nesting afterwards. An exception leaves the block
  with the error alone: the caller still holds the state from before the block, which
  is the rollback.
\<close>

definition atomic :: "(db \<Rightarrow> error + 'a \<times> db) \<Rightarrow> db \<Rightarrow> error + 'a \<times> db" where
  "atomic body d =
     (case body (d\<lparr>in_atomic := True\<rparr>) of
        Inl e \<Rightarrow> Inl e
      | Inr (x, d') \<Rightarrow> Inr (x, d'\<lparr>in_atomic := in_atomic d\<rparr>))"

definition and_then :: "error + 'a \<Rightarrow> ('a \<Rightarrow> error + 'b) \<Rightarrow> error + 'b" where
  "and_then r f = (case r of Inl e \<Rightarrow> Inl e | Inr x \<Rightarrow> f x)"

subsection \<open>Many-to-many managers\<close>

text \<open>\<^verbatim>\<open>target_user.followers.filter(id=self.id).exists()\<close>\<close>

definition followers_exists :: "int \<Rightarrow> int \<Rightarrow> db \<Rightarrow> bool \<times> db" where
  "followers_exists target self d = ((self, target) \<in> set (follows d), execute Followers_exists d)"

text \<open>
  \<^verbatim>\<open>target_user.followers.add(self)\<close>: a row already there is not inserted again. Both
  columns of the edge table are foreign keys to the user table: inserting an edge whose
  follower or followed user has no row raises \<^verbatim>\<open>IntegrityError\<close>, at the latest when
  the atomic block around the call ends.
\<close>

definition followers_add :: "int \<Rightarrow> int \<Rightarrow> db \<Rightarrow> error + db" where
  "followers_add target self d =
     (if (self, target) \<in> set (follows d) then Inr (execute Followers_add d)
      else if list_ex (\<lambda>u. user_id u = self) (users d) \<and>
              list_ex (\<lambda>u. user_id u = target) (users d)
      then Inr (execute Followers_add (d\<lparr>follows := follows d @ [(self, target)]\<rparr>))
      else Inl IntegrityError)"

text \<open>\<^verbatim>\<open>target_user.followers.remove(self)\<close>\<close>

definition followers_remove :: "int \<Rightarrow> int \<Rightarrow> db \<Rightarrow> db" where
  "followers_remove target self d =
     execute Followers_remove (d\<lparr>follows := removeAll (self, target) (follows d)\<rparr>)"

definition likes_exists :: "int \<Rightarrow> int \<Rightarrow> db \<Rightarrow> bool \<times> db" where
  "likes_exists post u d = ((u, post) \<in> set (likes d), execute Likes_exists d)"

text \<open>
  \<^verbatim>\<open>self.likes.add(user)\<close>: the user column is a foreign key to the user table, so the
  like of a user without a row raises \<^verbatim>\<open>IntegrityError\<close>. (A like of a post without
  a row does not survive \<^verbatim>\<open>like_post\<close> either: \<^verbatim>\<open>refresh_from_db\<close> raises
  \<^verbatim>\<open>DoesNotExist\<close> before the block ends.)
\<close>

definition likes_add :: "int \<Rightarrow> int \<Rightarrow> db \<Rightarrow> error + db" where
  "likes_add post u d =
     (if (u, post) \<in> set (likes d) then Inr (execute Likes_add d)
      else if list_ex (\<lambda>r. user_id r = u) (users d)
      then Inr (execute Likes_add (d\<lparr>likes := likes d @ [(u, post)]\<rparr>))
      else Inl IntegrityError)"

definition likes_remove :: "int \<Rightarrow> int \<Rightarrow> db \<Rightarrow> db" where
  "likes_remove post u d = execute Likes_remove (d\<lparr>likes := removeAll (u, post) (likes d)\<rparr>)"

subsection \<open>Relative counter updates\<close>

text \<open>
  \<^verbatim>\<open>objects.filter(id=i).update(c=F("c") + delta)\<close> rewrites the counter of every row
  with that id in place. The column is a \<^verbatim>\<open>PositiveIntegerField\<close>: an update that
  would store a negative value raises \<^verbatim>\<open>IntegrityError\<close>.
\<close>

definition update_following_count :: "int \<Rightarrow> int \<Rightarrow> db \<Rightarrow> error + db" where
  "update_following_count i delta d =
     (if list_ex (\<lambda>u. user_id u = i \<and> following_count u + delta < 0) (users d)
      then Inl IntegrityError
      else Inr (execute Update_following_count
             (d\<lparr>users := map (\<lambda>u. if user_id u = i
                                    then u\<lparr>following_count := following_count u + delta\<rparr>
                                    else u) (users d)\<rparr>)))"

definition update_followers_count :: "int \<Rightarrow> int \<Rightarrow> db \<Rightarrow> error + db" where
  "update_followers_count i delta d =
     (if list_ex (\<lambda>u. user_id u = i \<and> followers_count u + delta < 0) (users d)
      then Inl IntegrityError
      else Inr (execute Update_followers_count
             (d\<lparr>users := map (\<lambda>u. if user_id u = i
                                    then u\<lparr>followers_count := followers_count u + delta\<rparr>
                                    else u) (users d)\<rparr>)))"

definition update_like_count :: "int \<Rightarrow> int \<Rightarrow> db \<Rightarrow> error + db" where
  "update_like_count i delta d =
     (if list_ex (\<lambda>p. post_id p = i \<and> like_count p + delta < 0) (posts d)
      then Inl IntegrityError
      else Inr (execute Update_like_count
             (d\<lparr>posts := map (\<lambda>p. if post_id p = i
                                    then p\<lparr>like_count := like_count p + delta\<rparr>
                                    else p) (posts d)\<rparr>)))"

text \<open>\<^verbatim>\<open>self.refresh_from_db()\<close> reloads the row of the instance by primary key.\<close>

definition refresh_from_db :: "int \<Rightarrow> db \<Rightarrow> error + post_row \<times> db" where
  "refresh_from_db i d =
     (case find (\<lambda>p. post_id p = i) (posts d) of
        None \<Rightarrow> Inl DoesNotExist
      | Some p \<Rightarrow> Inr (p, execute Refresh_post d))"

section \<open>Toggle engine (network/models.py)\<close>

text \<open>
  \<^verbatim>\<open>User.toggle_follow(self, target_user)\<close>. The two instances are compared, and
  addressed in every query, by primary key. The existence check is the statement
  before the \<^verbatim>\<open>with transaction.atomic():\<close> block.
\<close>

definition toggle_follow :: "int \<Rightarrow> int \<Rightarrow> db \<Rightarrow> error + bool \<times> db" where
  "toggle_follow self target_user d =
     (if self = target_user then Inr (False, d)
      else
        let (follow, d0) = followers_exists target_user self d
        in atomic (\<lambda>d1.
             if follow then
               and_then (update_following_count self (- 1) (followers_remove target_user self d1))
                 (\<lambda>d2. and_then (update_followers_count target_user (- 1) d2)
                 (\<lambda>d3. Inr (False, d3)))
             else
               and_then (followers_add target_user self d1)
                 (\<lambda>d1'. and_then (update_following_count self 1 d1')
                 (\<lambda>d2. and_then (update_followers_count target_user 1 d2)
                 (\<lambda>d3. Inr (True, d3))))) d0)"

text \<open>
  \<^verbatim>\<open>Post.like_post(self, user)\<close>. The whole body, the existence check included, is
  inside the atomic block. The result is the new like status together with the
  refreshed instance.
\<close>

definition like_post :: "int \<Rightarrow> int \<Rightarrow> db \<Rightarrow> error + (bool \<times> post_row) \<times> db" where
  "like_post self u d =
     atomic (\<lambda>d1.
       let (present, d2) = likes_exists self u d1
       in and_then
            (if present then
               and_then (update_like_count self (- 1) (likes_remove self u d2))
                 (\<lambda>d3. Inr (False, d3))
             else
               and_then (likes_add self u d2)
                 (\<lambda>d2'. and_then (update_like_count self 1 d2')
                 (\<lambda>d3. Inr (True, d3))))
            (\<lambda>(liked, d4). and_then (refresh_from_db self d4)
            (\<lambda>(row, d5). Inr ((liked, row), d5)))) d"

subsection \<open>Sequences of toggles\<close>

datatype toggle = Like int int | Follow int int

text \<open>
  \<open>Like u p\<close> is the call \<^verbatim>\<open>p.like_post(u)\<close>, \<open>Follow a t\<close> the call
  \<^verbatim>\<open>a.toggle_follow(t)\<close>. A sequence runs until the first exception.
\<close>

fun apply_toggle :: "toggle \<Rightarrow> db \<Rightarrow> error + db" where
  "apply_toggle (Like u p) d = and_then (like_post p u d) (\<lambda>(r, d'). Inr d')"
| "apply_toggle (Follow a t) d = and_then (toggle_follow a t d) (\<lambda>(r, d'). Inr d')"

fun run_toggles :: "toggle list \<Rightarrow> db \<Rightarrow> error + db" where
  "run_toggles [] d = Inr d"
| "run_toggles (x # xs) d = and_then (apply_toggle x d) (run_toggles xs)"

text \<open>
  Every maintained counter equals the number of rows of the edge table it mirrors, and
  the edge tables hold no row twice (the uniqueness constraint of a many-to-many table).
\<close>

definition followers_of :: "db \<Rightarrow> int \<Rightarrow> int" where
  "followers_of d i = int (length (filter (\<lambda>e. snd e = i) (follows d)))"

definition following_of :: "db \<Rightarrow> int \<Rightarrow> int" where
  "following_of d i = int (length (filter (\<lambda>e. fst e = i) (follows d)))"

definition likes_of :: "db \<Rightarrow> int \<Rightarrow> int" where
  "likes_of d i = int (length (filter (\<lambda>e. snd e = i) (likes d)))"

definition counters_consistent :: "db \<Rightarrow> bool" where
  "counters_consistent d =
     (distinct (follows d) \<and> distinct (likes d) \<and>
      list_all (\<lambda>u. followers_count u = followers_of d (user_id u) \<and>
                    following_count u = following_of d (user_id u)) (users d) \<and>
      list_all (\<lambda>p. like_count p = likes_of d (post_id p)) (posts d))"

text \<open>
  \<open>known d x\<close>: the users and the post that the call \<open>x\<close> names have rows in \<open>d\<close>,
  as the instances of a request have, which were loaded from the database.
\<close>

fun known :: "db \<Rightarrow> toggle \<Rightarrow> bool" where
  "known d (Like u p) = (u \<in> set (map user_id (users d)) \<and> p \<in> set (map post_id (posts d)))"
| "known d (Follow a t) = (a \<in> set (map user_id (users d)) \<and> t \<in> set (map user_id (users d)))"

text \<open>What one toggle does to a consistent database, as the proofs below use it.\<close>

definition toggled :: "db \<Rightarrow> toggle \<Rightarrow> db \<Rightarrow> bool" where
  "toggled d x d' =
     (counters_consistent d' \<and> map post_id (posts d') = map post_id (posts d) \<and>
      map user_id (users d') = map user_id (users d) \<and>
      (\<forall>a t. ((a, t) \<in> set (follows d')) =
              (((a, t) \<in> set (follows d)) \<noteq> (x = Follow a t \<and> a \<noteq> t))) \<and>
      (\<forall>u p. ((u, p) \<in> set (likes d')) = (((u, p) \<in> set (likes d)) \<noteq> (x = Like u p))))"

section \<open>Library functions\<close>

text \<open>
  The views rely on functions of the Python and Django libraries and on the database
  backend; they are parameters of the model.
  \<^item> \<open>parse_datetime\<close> is \<^verbatim>\<open>django.utils.dateparse.parse_datetime\<close>: it raises
    \<^verbatim>\<open>ValueError\<close> on a well formatted but impossible date, returns \<^verbatim>\<open>None\<close> on an
    ill formatted one, and the timestamp otherwise.
  \<^item> \<open>int_of_str\<close> is \<^verbatim>\<open>int\<close> on a string, with \<open>None\<close> for its \<^verbatim>\<open>ValueError\<close>.
  \<^item> \<open>isoformat\<close> is \<^verbatim>\<open>datetime.isoformat\<close>, which \<^verbatim>\<open>Post.serialize\<close> uses, and
    \<open>str_of_int\<close> is the decimal form in which a client sends an id back.
  \<^item> \<open>bind_cursor t i\<close> is the exception, if any, that the backend raises when it runs
    a query with the timestamp \<open>t\<close> and the id \<open>i\<close> as parameters: SQLite and MySQL
    raise \<^verbatim>\<open>OverflowError\<close> for a timestamp that leaves the range of \<^verbatim>\<open>datetime\<close> when
    converted to UTC, PostgreSQL takes every timestamp.
  \<^item> \<open>strip\<close> is \<^verbatim>\<open>str.strip\<close>, which removes the white space of Unicode at both
    ends.
\<close>

record library =
  parse_datetime :: "string \<Rightarrow> error + int option"
  int_of_str :: "string \<Rightarrow> int option"
  isoformat :: "int \<Rightarrow> string"
  str_of_int :: "int \<Rightarrow> string"
  bind_cursor :: "int \<Rightarrow> int \<Rightarrow> error option"
  strip :: "string \<Rightarrow> string"

datatype py_arg = Py_None | Py_int int | Py_str string

text \<open>\<^verbatim>\<open>int(x)\<close> for the three kinds of argument that reach it; \<open>None\<close> is the exception.\<close>

fun py_int :: "library \<Rightarrow> py_arg \<Rightarrow> int option" where
  "py_int lib Py_None = None"
| "py_int lib (Py_int i) = Some i"
| "py_int lib (Py_str s) = int_of_str lib s"

section \<open>Cursor paginator (network/posts.py)\<close>

definition POST_LIMIT :: nat where
  "POST_LIMIT = 10"

text \<open>\<^verbatim>\<open>posts_qs.order_by("-timestamp", "-id")\<close>\<close>

definition order_by :: "post_row list \<Rightarrow> post_row list" where
  "order_by qs = sort_key (\<lambda>p. (- timestamp p, - post_id p)) qs"

text \<open>\<^verbatim>\<open>Q(timestamp__lt=timestamp) | Q(timestamp=timestamp, id__lt=post_id)\<close>\<close>

definition after_cursor :: "int \<Rightarrow> int \<Rightarrow> post_row \<Rightarrow> bool" where
  "after_cursor t i p = (timestamp p < t \<or> (timestamp p = t \<and> post_id p < i))"

text \<open>
  \<^verbatim>\<open>paginate_posts\<close> returns the tuple \<^verbatim>\<open>(None, has_next, return_posts)\<close>, or, from
  its \<^verbatim>\<open>except\<close> branch, a dictionary; the dictionary is kept as the list of its
  keys and values in insertion order.
\<close>

datatype paginate_result =
    Result_tuple "string option" bool "post_row list"
  | Result_dict "(string \<times> string option) list"

text \<open>
  The body of the \<^verbatim>\<open>try\<close> in \<^verbatim>\<open>paginate_posts\<close>: \<^verbatim>\<open>parse_datetime\<close> runs first,
  then \<^verbatim>\<open>int\<close>, then \<^verbatim>\<open>posts.filter\<close>, which only builds the query and raises
  \<^verbatim>\<open>ValueError\<close> when the parsed timestamp is \<^verbatim>\<open>None\<close> (Django refuses \<^verbatim>\<open>None\<close> as
  the value of an \<^verbatim>\<open>lt\<close> lookup). The result is the cursor of the query that was
  built, or \<open>None\<close> when anything raised.
\<close>

definition parse_cursor :: "library \<Rightarrow> string \<Rightarrow> string \<Rightarrow> (int \<times> int) option" where
  "parse_cursor lib ts pid =
     (case parse_datetime lib ts of
        Inl e \<Rightarrow> None
      | Inr t \<Rightarrow>
         (case int_of_str lib pid of
            None \<Rightarrow> None
          | Some i \<Rightarrow>
             (case t of
                None \<Rightarrow> None
              | Some t' \<Rightarrow> Some (t', i))))"

text \<open>
  \<^verbatim>\<open>list(posts[: POST_LIMIT + 1])\<close>, after the \<^verbatim>\<open>try\<close>: here the query runs, with the
  cursor, when there is one, as its parameters, and an exception of the backend leaves
  \<^verbatim>\<open>paginate_posts\<close>.
\<close>

definition fetch ::
    "library \<Rightarrow> (int \<times> int) option \<Rightarrow> nat \<Rightarrow> post_row list \<Rightarrow> error + post_row list" where
  "fetch lib cursor n ordered =
     (case cursor of
        None \<Rightarrow> Inr (take n ordered)
      | Some (t, i) \<Rightarrow>
         (case bind_cursor lib t i of
            Some e \<Rightarrow> Inl e
          | None \<Rightarrow> Inr (take n (filter (after_cursor t i) ordered))))"

text \<open>\<^verbatim>\<open>if timestamp and post_id:\<close> a missing parameter and an empty string are both false.\<close>

fun truthy :: "string option \<Rightarrow> bool" where
  "truthy None = False"
| "truthy (Some s) = (s \<noteq> [])"

definition paginate_posts ::
    "library \<Rightarrow> post_row list \<Rightarrow> string option \<Rightarrow> string option \<Rightarrow> error + paginate_result" where
  "paginate_posts lib posts_qs timestamp' post_id' =
     (let ordered = order_by posts_qs;
          query =
            (case (timestamp', post_id') of
               (Some ts, Some pid) \<Rightarrow>
                 if truthy timestamp' \<and> truthy post_id'
                 then map_option Some (parse_cursor lib ts pid)
                 else Some None
             | _ \<Rightarrow> Some None)
      in case query of
           None \<Rightarrow> Inr (Result_dict [(''error'', Some ''Error parsing post data.''),
                                      (''has_next'', None), (''return_posts'', None)])
         | Some cursor \<Rightarrow>
             (case fetch lib cursor (POST_LIMIT + 1) ordered of
                Inl e \<Rightarrow> Inl e
              | Inr fetched \<Rightarrow>
                  (let has_next = (length fetched > POST_LIMIT);
                       return_posts = take POST_LIMIT fetched
                   in Inr (Result_tuple None has_next return_posts))))"

section \<open>Requests and responses\<close>

datatype json = JNull | JBool bool | JNum int | JStr string | JList "json list"
  | JDict "(string \<times> json) list"

text \<open>
  The body of a request as \<^verbatim>\<open>json.loads\<close> sees it: empty, bytes that are not UTF-8,
  text that is not JSON, or a JSON value (numbers are integers; a dictionary lists each
  key once).
\<close>

datatype request_body = Empty_body | Not_utf8 | Invalid_json | Json json

record request =
  http_method :: string
  req_user :: "int option"
  GET :: "string \<Rightarrow> string option"
  body :: request_body

text \<open>
  \<open>req_user\<close> is the id of the authenticated user, \<open>None\<close> for the anonymous one.
  \<^verbatim>\<open>Post.serialize\<close> without the display fields of the author (name and picture).
\<close>

record post_json =
  j_id :: int
  j_user_id :: int
  j_user_is_author :: bool
  j_content :: string
  j_timestamp :: string
  j_like_count :: int
  j_comment_count :: int
  j_liked :: bool

datatype payload =
    Error_payload string
  | Edit_error_payload "string option"
  | Invalid_action_payload json
  | Posts_payload "post_json list" bool
  | Liked_payload bool int
  | Edited_payload "string option" string
  | Message_payload string
  | Follow_payload bool int

text \<open>
  A view answers with a \<^verbatim>\<open>JsonResponse\<close> and its status, with the redirect of
  \<^verbatim>\<open>login_required\<close>, or lets an exception escape.
\<close>

datatype response = JsonResponse payload int | Redirect_to_login | Unhandled error

section \<open>Utilities (network/utils.py)\<close>

text \<open>The method check of \<^verbatim>\<open>require_http_methods\<close>, with its 405 answer.\<close>

definition require_http_methods :: "string list \<Rightarrow> request \<Rightarrow> response option" where
  "require_http_methods methods request =
     (if http_method request \<in> set methods then None
      else Some (JsonResponse (Error_payload (http_method request @ '' request required.'')) 405))"

text \<open>
  \<^verbatim>\<open>get_user\<close>: \<^verbatim>\<open>None\<close> when \<^verbatim>\<open>int\<close> raises or no row has the id.
\<close>

definition get_user :: "library \<Rightarrow> py_arg \<Rightarrow> db \<Rightarrow> user_row option" where
  "get_user lib uid d =
     (case py_int lib uid of
        None \<Rightarrow> None
      | Some i \<Rightarrow> find (\<lambda>u. user_id u = i) (users d))"

text \<open>\<^verbatim>\<open>bool(value)\<close> of a decoded JSON value.\<close>

fun py_bool :: "json \<Rightarrow> bool" where
  "py_bool JNull = False"
| "py_bool (JBool b) = b"
| "py_bool (JNum n) = (n \<noteq> 0)"
| "py_bool (JStr s) = (s \<noteq> [])"
| "py_bool (JList xs) = (xs \<noteq> [])"
| "py_bool (JDict kvs) = (kvs \<noteq> [])"

text \<open>
  \<^verbatim>\<open>content_type in data\<close> and \<^verbatim>\<open>data[content_type]\<close> for a string
  \<^verbatim>\<open>content_type\<close>: key membership in a dictionary, element membership in a list,
  substring test in a string, \<^verbatim>\<open>TypeError\<close> elsewhere; only a dictionary can be
  indexed by a string.
\<close>

fun is_substring :: "string \<Rightarrow> string \<Rightarrow> bool" where
  "is_substring k [] = (k = [])"
| "is_substring k (c # cs) = (take (length k) (c # cs) = k \<or> is_substring k cs)"

fun py_in :: "string \<Rightarrow> json \<Rightarrow> error + bool" where
  "py_in k (JDict kvs) = Inr (k \<in> set (map fst kvs))"
| "py_in k (JList xs) = Inr (JStr k \<in> set xs)"
| "py_in k (JStr s) = Inr (is_substring k s)"
| "py_in k v = Inl TypeError"

fun py_getitem :: "json \<Rightarrow> string \<Rightarrow> error + json" where
  "py_getitem (JDict kvs) k = (case map_of kvs k of None \<Rightarrow> Inl KeyError | Some v \<Rightarrow> Inr v)"
| "py_getitem v k = Inl TypeError"

datatype body_error = InvalidRequestBodyError string | Other_exception error

text \<open>
  \<^verbatim>\<open>get_body_content(request, content_type)\<close> for a given, non-empty
  \<^verbatim>\<open>content_type\<close>, as every caller passes one. Only \<^verbatim>\<open>JSONDecodeError\<close> is
  caught: the \<^verbatim>\<open>UnicodeDecodeError\<close> of a body that is not UTF-8 escapes.
\<close>

definition get_body_content :: "library \<Rightarrow> request \<Rightarrow> string \<Rightarrow> body_error + json" where
  "get_body_content lib request content_type =
     (case body request of
        Invalid_json \<Rightarrow> Inl (InvalidRequestBodyError ''Invalid JSON in request body'')
      | Not_utf8 \<Rightarrow> Inl (Other_exception UnicodeDecodeError)
      | other \<Rightarrow>
         (let data = (case other of Json v \<Rightarrow> v | _ \<Rightarrow> JDict [])
          in case py_in content_type data of
               Inl e \<Rightarrow> Inl (Other_exception e)
             | Inr False \<Rightarrow>
                 Inl (InvalidRequestBodyError (''Missing required field: '' @ content_type))
             | Inr True \<Rightarrow>
                 (case py_getitem data content_type of
                    Inl e \<Rightarrow> Inl (Other_exception e)
                  | Inr (JStr s) \<Rightarrow> Inr (JStr (strip lib s))
                  | Inr v \<Rightarrow> Inr v)))"

text \<open>
  \<^verbatim>\<open>validate_content(content, length=250)\<close>. Only a string has \<^verbatim>\<open>strip\<close>: a
  truthy value of another type raises \<^verbatim>\<open>AttributeError\<close>.
\<close>

definition validate_content :: "library \<Rightarrow> json \<Rightarrow> error + bool \<times> string option" where
  "validate_content lib content' =
     (if \<not> py_bool content' then Inr (False, Some ''Content cannot be empty.'')
      else case content' of
             JStr s \<Rightarrow>
               if strip lib s = [] then Inr (False, Some ''Content cannot be empty.'')
               else if length s > 250 then Inr (False, Some ''Content exceeds 250 characters.'')
               else Inr (True, None)
           | _ \<Rightarrow> Inl AttributeError)"

section \<open>Feed assembly (network/posts.py)\<close>

text \<open>
  \<^verbatim>\<open>get_posts(request, filter)\<close>. A queryset is the list of the rows it selects. The
  prefetch of \<^verbatim>\<open>_liked_by_user\<close> selects no rows; \<open>serialize\<close> below reads the like
  table instead.
\<close>

definition get_posts ::
    "library \<Rightarrow> request \<Rightarrow> string \<Rightarrow> db \<Rightarrow> string option \<times> post_row list \<times> int" where
  "get_posts lib request filter' d =
     (let all_posts = posts d;
          (error', selected, status) =
            (if filter' = ''following'' then
               (case req_user request of
                  Some u \<Rightarrow> (None, filter (\<lambda>p. (u, post_user p) \<in> set (follows d)) all_posts, 200)
                | None \<Rightarrow> (Some ''User not authenticated.'', all_posts, 401))
             else if filter' = ''all'' then (None, all_posts, 200)
             else if filter' = ''profile'' then
               (case get_user lib (case GET request ''user_id'' of None \<Rightarrow> Py_None
                                   | Some s \<Rightarrow> Py_str s) d of
                  Some user \<Rightarrow> (None, filter (\<lambda>p. post_user p = user_id user) all_posts, 200)
                | None \<Rightarrow> (Some ''User not found.'', all_posts, 404))
             else (Some ''Filter not found.'', all_posts, 404))
      in (error', if status = (200::int) then selected else [], status))"

text \<open>
  \<^verbatim>\<open>post.serialize(request.user)\<close>, where \<^verbatim>\<open>_liked_by_user\<close> is the prefetched list
  of the likes of the post that belong to the authenticated requester.
\<close>

definition serialize :: "library \<Rightarrow> request \<Rightarrow> db \<Rightarrow> post_row \<Rightarrow> post_json" where
  "serialize lib request d p =
     \<lparr>j_id = post_id p,
      j_user_id = post_user p,
      j_user_is_author = (case req_user request of None \<Rightarrow> False | Some u \<Rightarrow> u = post_user p),
      j_content = content p,
      j_timestamp = isoformat lib (timestamp p),
      j_like_count = like_count p,
      j_comment_count = comment_count p,
      j_liked = (case req_user request of None \<Rightarrow> False
                 | Some u \<Rightarrow> (u, post_id p) \<in> set (likes d))\<rparr>"

text \<open>The text of an error message that passed \<^verbatim>\<open>if error:\<close>.\<close>

fun text_of :: "string option \<Rightarrow> string" where
  "text_of None = []"
| "text_of (Some s) = s"

text \<open>
  \<^verbatim>\<open>posts_view\<close>. Unpacking the result of \<^verbatim>\<open>paginate_posts\<close> into three names binds
  the elements of a tuple, and the keys of a dictionary; iterating over a key and calling
  \<^verbatim>\<open>serialize\<close> on its characters raises \<^verbatim>\<open>AttributeError\<close>.
\<close>

definition posts_view :: "library \<Rightarrow> request \<Rightarrow> string \<Rightarrow> db \<Rightarrow> response" where
  "posts_view lib request filter' d =
     (case require_http_methods [''GET''] request of
        Some r \<Rightarrow> r
      | None \<Rightarrow>
         (case get_posts lib request filter' d of
            (error', posts_qs, status) \<Rightarrow>
              if truthy error' then JsonResponse (Error_payload (text_of error')) status
              else
                (case paginate_posts lib posts_qs None None of
                   Inl e \<Rightarrow> Unhandled e
                 | Inr (Result_tuple e has_next return_posts) \<Rightarrow>
                     if return_posts = [] then JsonResponse (Posts_payload [] False) 200
                     else JsonResponse
                            (Posts_payload (map (serialize lib request d) return_posts)
                               has_next) 200
                 | Inr (Result_dict kvs) \<Rightarrow>
                    (case map fst kvs of
                       [k1, k2, k3] \<Rightarrow>
                         if k3 = [] then JsonResponse (Posts_payload [] False) 200
                         else Unhandled AttributeError
                     | _ \<Rightarrow> Unhandled ValueError))))"

text \<open>\<^verbatim>\<open>get_more_posts\<close>\<close>

definition get_more_posts :: "library \<Rightarrow> request \<Rightarrow> string \<Rightarrow> db \<Rightarrow> response" where
  "get_more_posts lib request filter' d =
     (case require_http_methods [''GET''] request of
        Some r \<Rightarrow> r
      | None \<Rightarrow>
         (let timestamp' = GET request ''timestamp'';
              post_id' = GET request ''post_id''
          in case get_posts lib request filter' d of
               (error', posts_qs, status) \<Rightarrow>
                 if truthy error' then JsonResponse (Error_payload (text_of error')) status
                 else
                   (case paginate_posts lib posts_qs timestamp' post_id' of
                      Inl e \<Rightarrow> Unhandled e
                    | Inr (Result_tuple e has_next return_posts) \<Rightarrow>
                        if truthy e then JsonResponse (Error_payload (text_of e)) 400
                        else if return_posts = [] then JsonResponse (Posts_payload [] False) 204
                        else JsonResponse
                               (Posts_payload (map (serialize lib request d) return_posts)
                                  has_next) 200
                    | Inr (Result_dict kvs) \<Rightarrow>
                       (case map fst kvs of
                          [k1, k2, k3] \<Rightarrow>
                            if k1 \<noteq> [] then JsonResponse (Error_payload k1) 400
                            else if k3 = [] then JsonResponse (Posts_payload [] False) 204
                            else Unhandled AttributeError
                        | _ \<Rightarrow> Unhandled ValueError))))"

section \<open>Post actions (network/models.py, network/posts.py)\<close>

text \<open>
  \<^verbatim>\<open>post.save()\<close> writes the instance over the row with its primary key, or inserts
  it when there is none.
\<close>

definition save :: "post_row \<Rightarrow> db \<Rightarrow> db" where
  "save post d =
     execute Save_post
       (d\<lparr>posts := (if list_ex (\<lambda>r. post_id r = post_id post) (posts d)
                     then map (\<lambda>r. if post_id r = post_id post then post else r) (posts d)
                     else posts d @ [post])\<rparr>)"

definition update_post_count :: "int \<Rightarrow> int \<Rightarrow> db \<Rightarrow> error + db" where
  "update_post_count i delta d =
     (if list_ex (\<lambda>u. user_id u = i \<and> post_count u + delta < 0) (users d)
      then Inl IntegrityError
      else Inr (execute Update_post_count
             (d\<lparr>users := map (\<lambda>u. if user_id u = i
                                    then u\<lparr>post_count := post_count u + delta\<rparr>
                                    else u) (users d)\<rparr>)))"

text \<open>\<^verbatim>\<open>self.delete()\<close> removes the row and, by cascade, the likes of the post.\<close>

definition delete :: "post_row \<Rightarrow> db \<Rightarrow> db" where
  "delete post d =
     execute Delete_post
       (d\<lparr>posts := filter (\<lambda>r. post_id r \<noteq> post_id post) (posts d),
          likes := filter (\<lambda>e. snd e \<noteq> post_id post) (likes d)\<rparr>)"

text \<open>\<^verbatim>\<open>Post.delete_post(self)\<close>\<close>

definition delete_post :: "post_row \<Rightarrow> db \<Rightarrow> error + unit \<times> db" where
  "delete_post post d =
     atomic (\<lambda>d1. and_then (update_post_count (post_user post) (- 1) (delete post d1))
                    (\<lambda>d2. Inr ((), d2))) d"

text \<open>
  \<^verbatim>\<open>edit_post(request, post)\<close>: the tuple it returns, the instance as it leaves it,
  and the database.
\<close>

definition edit_post ::
    "library \<Rightarrow> request \<Rightarrow> post_row \<Rightarrow> db \<Rightarrow>
       error + (bool \<times> string option \<times> int) \<times> post_row \<times> db" where
  "edit_post lib request post d =
     (if Some (post_user post) \<noteq> req_user request
      then Inr ((False, Some ''Unauthorized.'', 403), post, d)
      else
        case get_body_content lib request ''content'' of
          Inl (InvalidRequestBodyError m) \<Rightarrow> Inr ((False, Some m, 400), post, d)
        | Inl (Other_exception e) \<Rightarrow> Inl e
        | Inr content' \<Rightarrow>
           (case validate_content lib content' of
              Inl e \<Rightarrow> Inl e
            | Inr (is_valid, error') \<Rightarrow>
                if \<not> is_valid then Inr ((False, error', 400), post, d)
                else
                  (case content' of
                     JStr s \<Rightarrow>
                       (let post' = post\<lparr>content := s\<rparr>
                        in Inr ((True, Some ''Post edited.'', 200), post', save post' d))
                   | _ \<Rightarrow> Inl TypeError)))"

text \<open>
  \<^verbatim>\<open>update_post(request, post_id)\<close> under \<^verbatim>\<open>login_required\<close> and
  \<^verbatim>\<open>require_put_delete\<close>. An exception that escapes the view leaves the database
  as it was.
\<close>

definition update_post :: "library \<Rightarrow> request \<Rightarrow> int \<Rightarrow> db \<Rightarrow> response \<times> db" where
  "update_post lib request pid d =
     (case req_user request of
        None \<Rightarrow> (Redirect_to_login, d)
      | Some u \<Rightarrow>
         (case require_http_methods [''PUT'', ''DELETE''] request of
            Some r \<Rightarrow> (r, d)
          | None \<Rightarrow>
             (case find (\<lambda>p. post_id p = pid) (posts d) of
                None \<Rightarrow> (JsonResponse (Error_payload ''Post does not exist.'') 400, d)
              | Some post \<Rightarrow>
                 (case get_body_content lib request ''action'' of
                    Inl (InvalidRequestBodyError m) \<Rightarrow> (JsonResponse (Error_payload m) 400, d)
                  | Inl (Other_exception e) \<Rightarrow> (Unhandled e, d)
                  | Inr action \<Rightarrow>
                      if action = JStr ''like'' then
                        (case like_post (post_id post) u d of
                           Inl e \<Rightarrow> (Unhandled e, d)
                         | Inr ((liked, row), d') \<Rightarrow>
                             (JsonResponse (Liked_payload liked (like_count row)) 200, d'))
                      else if action = JStr ''edit'' then
                        (case edit_post lib request post d of
                           Inl e \<Rightarrow> (Unhandled e, d)
                         | Inr ((edited, message, status), post', d') \<Rightarrow>
                             if \<not> edited then (JsonResponse (Edit_error_payload message) status, d')
                             else (JsonResponse (Edited_payload message (content post')) status, d'))
                      else if action = JStr ''delete'' then
                        (if post_user post \<noteq> u
                         then (JsonResponse (Error_payload ''Unauthorized.'') 403, d)
                         else
                           (case delete_post post d of
                              Inl e \<Rightarrow> (Unhandled e, d)
                            | Inr (x, d') \<Rightarrow> (JsonResponse (Message_payload ''Post deleted.'') 200, d')))
                      else (JsonResponse (Invalid_action_payload action) 400, d)))))"

section \<open>Follow action (network/profiles.py)\<close>

text \<open>
  \<^verbatim>\<open>follow_view(request, id)\<close> under \<^verbatim>\<open>login_required\<close> and \<^verbatim>\<open>require_put\<close>; the
  id comes from the URL as an integer.
\<close>

definition follow_view :: "library \<Rightarrow> request \<Rightarrow> int \<Rightarrow> db \<Rightarrow> response \<times> db" where
  "follow_view lib request i d =
     (case req_user request of
        None \<Rightarrow> (Redirect_to_login, d)
      | Some user \<Rightarrow>
         (case require_http_methods [''PUT''] request of
            Some r \<Rightarrow> (r, d)
          | None \<Rightarrow>
             (case get_user lib (Py_int i) d of
                None \<Rightarrow> (JsonResponse (Error_payload ''User not found.'') 404, d)
              | Some target_user \<Rightarrow>
                  if user_id target_user = user
                  then (JsonResponse (Error_payload ''You cannot follow yourself.'') 400, d)
                  else
                    (case toggle_follow user (user_id target_user) d of
                       Inl e \<Rightarrow> (Unhandled e, d)
                     | Inr (follow, d') \<Rightarrow>
                        (case find (\<lambda>u. user_id u = user_id target_user) (users d') of
                           None \<Rightarrow> (Unhandled DoesNotExist, d')
                         | Some refreshed \<Rightarrow>
                             (JsonResponse (Follow_payload follow (followers_count refreshed)) 200,
                              d'))))))"

section \<open>Feed order and the page loop of a client\<close>

text \<open>
  \<open>before p q\<close>: \<open>p\<close> comes strictly before \<open>q\<close> in (timestamp descending, id
  descending) order. \<open>is_feed_order R xs\<close>: \<open>xs\<close> lists the posts of \<open>R\<close>, each
  once, in that order.
\<close>

definition before :: "post_row \<Rightarrow> post_row \<Rightarrow> bool" where
  "before p q =
     (timestamp q < timestamp p \<or> (timestamp q = timestamp p \<and> post_id q < post_id p))"

definition is_feed_order :: "post_row list \<Rightarrow> post_row list \<Rightarrow> bool" where
  "is_feed_order R xs = (sorted_wrt before xs \<and> set xs = set R \<and> length xs = length R)"

text \<open>
  A client reads the feed page by page: it sends the timestamp and id of the last post
  of a page, as \<^verbatim>\<open>serialize\<close> and the client print them, for the next page, and stops
  when \<open>hasNext\<close> is false. The first argument after the posts bounds the number of
  requests; \<open>None\<close> means that the bound was reached or that a request failed.
\<close>

fun feed_pages ::
    "library \<Rightarrow> post_row list \<Rightarrow> nat \<Rightarrow> string option \<Rightarrow> string option \<Rightarrow> post_row list option" where
  "feed_pages lib qs 0 ts pid = None"
| "feed_pages lib qs (Suc n) ts pid =
     (case paginate_posts lib qs ts pid of
        Inl e \<Rightarrow> None
      | Inr (Result_dict kvs) \<Rightarrow> None
      | Inr (Result_tuple e has_next page) \<Rightarrow>
          (case rev page of
             [] \<Rightarrow> Some page
           | l # ls \<Rightarrow>
               if has_next then
                 map_option (append page)
                   (feed_pages lib qs n (Some (isoformat lib (timestamp l)))
                      (Some (str_of_int lib (post_id l))))
               else Some page))"

text \<open>
  What the loop needs from the library at a post: the printed timestamp and id are not
  empty, \<open>parse_datetime\<close> and \<open>int\<close> read them back, and the backend takes as
  parameters of a query the timestamp and id that it stored.
\<close>

definition round_trip :: "library \<Rightarrow> post_row \<Rightarrow> bool" where
  "round_trip lib p =
     (isoformat lib (timestamp p) \<noteq> [] \<and> str_of_int lib (post_id p) \<noteq> [] \<and>
      parse_datetime lib (isoformat lib (timestamp p)) = Inr (Some (timestamp p)) \<and>
      int_of_str lib (str_of_int lib (post_id p)) = Some (post_id p) \<and>
      bind_cursor lib (timestamp p) (post_id p) = None)"

section \<open>Example data\<close>

text \<open>
  A library instance for the examples. Ids and timestamps are printed and read as
  decimal numbers, a timestamp with an optional minus sign; the backend cannot bind a
  timestamp before 0 (as SQLite cannot bind one before the year 1); \<open>strip\<close> removes
  the white space of ASCII.
\<close>

definition digit_of :: "char \<Rightarrow> nat option" where
  "digit_of c = map_of (zip ''0123456789'' [0, 1, 2, 3, 4, 5, 6, 7, 8, 9]) c"

fun read_decimal :: "nat \<Rightarrow> string \<Rightarrow> nat option" where
  "read_decimal acc [] = Some acc"
| "read_decimal acc (c # cs) =
     (case digit_of c of None \<Rightarrow> None | Some v \<Rightarrow> read_decimal (10 * acc + v) cs)"

fun print_decimal :: "nat \<Rightarrow> nat \<Rightarrow> string" where
  "print_decimal 0 n = []"
| "print_decimal (Suc k) n =
     (if n < 10 then [''0123456789'' ! n]
      else print_decimal k (n div 10) @ [''0123456789'' ! (n mod 10)])"

definition ascii_space :: "char \<Rightarrow> bool" where
  "ascii_space c =
     (c \<in> set [CHR '' '', CHR 0x09, CHR 0x0A, CHR 0x0B, CHR 0x0C, CHR 0x0D,
                CHR 0x1C, CHR 0x1D, CHR 0x1E, CHR 0x1F])"

definition ascii_strip :: "string \<Rightarrow> string" where
  "ascii_strip s = rev (dropWhile ascii_space (rev (dropWhile ascii_space s)))"

fun read_signed :: "string \<Rightarrow> int option" where
  "read_signed [] = None"
| "read_signed (c # cs) =
     (if c = CHR ''-'' then (if cs = [] then None else map_option (\<lambda>n. - int n) (read_decimal 0 cs))
      else map_option int (read_decimal 0 (c # cs)))"

definition example_lib :: library where
  "example_lib =
     \<lparr>parse_datetime = (\<lambda>s. Inr (read_signed s)),
      int_of_str = (\<lambda>s. if s = [] then None else map_option int (read_decimal 0 s)),
      isoformat = (\<lambda>t. print_decimal 20 (nat t)),
      str_of_int = (\<lambda>i. print_decimal 20 (nat i)),
      bind_cursor = (\<lambda>t i. if t < 0 then Some OverflowError else None),
      strip = ascii_strip\<rparr>"

definition example_post :: "int \<Rightarrow> int \<Rightarrow> int \<Rightarrow> post_row" where
  "example_post i u t =
     \<lparr>post_id = i, post_user = u, timestamp = t, content = ''text'',
      like_count = 0, comment_count = 0\<rparr>"

definition example_user :: "int \<Rightarrow> user_row" where
  "example_user i = \<lparr>user_id = i, post_count = 0, followers_count = 0, following_count = 0\<rparr>"

text \<open>Two users, one post of user 1, no edges.\<close>

definition example_db :: db where
  "example_db =
     \<lparr>users = [example_user 1, example_user 2], posts = [example_post 10 1 5],
      follows = [], likes = [], in_atomic = False, journal = []\<rparr>"

text \<open>Twelve posts, in table order, on three timestamps.\<close>

definition example_posts :: "post_row list" where
  "example_posts =
     [example_post 3 1 7, example_post 1 1 7, example_post 2 2 7, example_post 4 1 7,
      example_post 8 2 6, example_post 6 1 6, example_post 7 1 6, example_post 5 2 6,
      example_post 9 1 5, example_post 12 1 5, example_post 11 2 5, example_post 10 1 5]"

text \<open>A request by its method, its user, its query parameters and its body.\<close>

definition example_request ::
    "string \<Rightarrow> int option \<Rightarrow> (string \<times> string) list \<Rightarrow> request_body \<Rightarrow> request" where
  "example_request m u params b = \<lparr>http_method = m, req_user = u, GET = map_of params, body = b\<rparr>"

text \<open>The status of a response, when it has one.\<close>

fun status_of :: "response \<Rightarrow> int option" where
  "status_of (JsonResponse p st) = Some st"
| "status_of r = None"

section \<open>The toggle engine keeps the counters consistent\<close>

lemma length_filter_removeAll:
  "distinct xs \<Longrightarrow> e \<in> set xs \<Longrightarrow>
   int (length (filter P (removeAll e xs))) = int (length (filter P xs)) - (if P e then 1 else 0)"
  by (induction xs) (auto simp: removeAll_id)

lemma filter_pos: "e \<in> set xs \<Longrightarrow> P e \<Longrightarrow> 1 \<le> int (length (filter P xs))"
  by (induction xs) auto

lemma following_count_pos:
  "counters_consistent d \<Longrightarrow> (a, t) \<in> set (follows d) \<Longrightarrow> u \<in> set (users d) \<Longrightarrow>
   user_id u = a \<Longrightarrow> 1 \<le> following_count u"
  using filter_pos [of "(a, t)" "follows d" "\<lambda>e. fst e = a"]
  by (simp add: counters_consistent_def list_all_iff following_of_def)

lemma followers_count_pos:
  "counters_consistent d \<Longrightarrow> (a, t) \<in> set (follows d) \<Longrightarrow> u \<in> set (users d) \<Longrightarrow>
   user_id u = t \<Longrightarrow> 1 \<le> followers_count u"
  using filter_pos [of "(a, t)" "follows d" "\<lambda>e. snd e = t"]
  by (simp add: counters_consistent_def list_all_iff followers_of_def)

lemma like_count_pos:
  "counters_consistent d \<Longrightarrow> (u, p) \<in> set (likes d) \<Longrightarrow> r \<in> set (posts d) \<Longrightarrow>
   post_id r = p \<Longrightarrow> 1 \<le> like_count r"
  using filter_pos [of "(u, p)" "likes d" "\<lambda>e. snd e = p"]
  by (simp add: counters_consistent_def list_all_iff likes_of_def)

lemma toggle_follow_remove:
  assumes "counters_consistent d" "a \<noteq> t" "(a, t) \<in> set (follows d)"
  shows "\<exists>d'. toggle_follow a t d = Inr (False, d') \<and> counters_consistent d' \<and>
           follows d' = removeAll (a, t) (follows d) \<and> likes d' = likes d \<and>
           map post_id (posts d') = map post_id (posts d) \<and>
           map user_id (users d') = map user_id (users d)"
proof -
  have f1: "\<not> list_ex (\<lambda>u. user_id u = a \<and> following_count u + (- 1) < 0) (users d)"
    using following_count_pos [OF assms(1) assms(3)] by (fastforce simp: list_ex_iff)
  have f2: "\<not> list_ex (\<lambda>u. user_id u = t \<and> followers_count u + (- 1) < 0)
     (map (\<lambda>u. if user_id u = a then u\<lparr>following_count := following_count u + (- 1)\<rparr> else u) (users d))"
    using followers_count_pos [OF assms(1) assms(3)] by (fastforce simp: list_ex_iff)
  have inv: "counters_consistent
           (d\<lparr>follows := removeAll (a, t) (follows d),
                users :=
                  map ((\<lambda>u. if user_id u = t
                            then u\<lparr>followers_count := followers_count u + - 1\<rparr>
                            else u) \<circ>
                       (\<lambda>u. if user_id u = a
                            then u\<lparr>following_count := following_count u + - 1\<rparr>
                            else u))
                   (users d),
                journal := j\<rparr>)" for j
    using assms
    by (auto simp: counters_consistent_def list_all_iff followers_of_def following_of_def
        likes_of_def length_filter_removeAll distinct_removeAll)
  show ?thesis
    using assms(2,3) f1 f2 inv
    by (simp add: toggle_follow_def followers_exists_def atomic_def and_then_def
      followers_remove_def update_following_count_def update_followers_count_def execute_def)
qed

lemma user_counts_nonneg:
  "counters_consistent d \<Longrightarrow> u \<in> set (users d) \<Longrightarrow> 0 \<le> following_count u \<and> 0 \<le> followers_count u"
  by (simp add: counters_consistent_def list_all_iff following_of_def followers_of_def)

lemma like_count_nonneg:
  "counters_consistent d \<Longrightarrow> r \<in> set (posts d) \<Longrightarrow> 0 \<le> like_count r"
  by (simp add: counters_consistent_def list_all_iff likes_of_def)

lemma followers_add_new:
  "(a, t) \<notin> set (follows d) \<Longrightarrow> a \<in> set (map user_id (users d)) \<Longrightarrow>
   t \<in> set (map user_id (users d)) \<Longrightarrow>
   followers_add t a d = Inr (execute Followers_add (d\<lparr>follows := follows d @ [(a, t)]\<rparr>))"
  by (auto simp: followers_add_def list_ex_iff)

lemma likes_add_new:
  "(u, p) \<notin> set (likes d) \<Longrightarrow> u \<in> set (map user_id (users d)) \<Longrightarrow>
   likes_add p u d = Inr (execute Likes_add (d\<lparr>likes := likes d @ [(u, p)]\<rparr>))"
  by (auto simp: likes_add_def list_ex_iff)

lemma execute_fields:
  "users (execute s d) = users d" "posts (execute s d) = posts d"
  "follows (execute s d) = follows d" "likes (execute s d) = likes d"
  "in_atomic (execute s d) = in_atomic d"
  by (simp_all add: execute_def)

lemma toggle_follow_add_steps:
  assumes "a \<noteq> t" "(a, t) \<notin> set (follows d)"
    and "a \<in> set (map user_id (users d))" "t \<in> set (map user_id (users d))"
  shows "toggle_follow a t d =
      and_then (update_following_count a 1
                  (execute Followers_add
                     ((execute Followers_exists d)\<lparr>in_atomic := True,
                        follows := follows d @ [(a, t)]\<rparr>)))
        (\<lambda>d2. and_then (update_followers_count t 1 d2)
        (\<lambda>d3. Inr (True, d3\<lparr>in_atomic := in_atomic d\<rparr>)))"
proof -
  have "followers_add t a ((execute Followers_exists d)\<lparr>in_atomic := True\<rparr>) =
          Inr (execute Followers_add
                 ((execute Followers_exists d)\<lparr>in_atomic := True, follows := follows d @ [(a, t)]\<rparr>))"
    using assms(2,3,4) by (simp add: followers_add_new execute_fields)
  then show ?thesis
    using assms(1,2)
    by (simp add: toggle_follow_def followers_exists_def atomic_def and_then_def execute_fields
        split: sum.splits)
qed

lemma like_post_add_steps:
  assumes "(u, p) \<notin> set (likes d)" "u \<in> set (map user_id (users d))"
  shows "like_post p u d =
      and_then (update_like_count p 1
                  (execute Likes_add
                     ((execute Likes_exists (d\<lparr>in_atomic := True\<rparr>))\<lparr>likes := likes d @ [(u, p)]\<rparr>)))
        (\<lambda>d3. and_then (refresh_from_db p d3)
        (\<lambda>(row, d5). Inr ((True, row), d5\<lparr>in_atomic := in_atomic d\<rparr>)))"
proof -
  have "likes_add p u (execute Likes_exists (d\<lparr>in_atomic := True\<rparr>)) =
          Inr (execute Likes_add
                 ((execute Likes_exists (d\<lparr>in_atomic := True\<rparr>))\<lparr>likes := likes d @ [(u, p)]\<rparr>))"
    using assms by (simp add: likes_add_new execute_fields)
  then show ?thesis
    using assms(1)
    by (simp add: like_post_def likes_exists_def atomic_def and_then_def execute_fields
        split: sum.splits prod.splits)
qed

lemma toggle_follow_add:
  assumes "counters_consistent d" "a \<noteq> t" "(a, t) \<notin> set (follows d)"
    and "a \<in> set (map user_id (users d))" "t \<in> set (map user_id (users d))"
  shows "\<exists>d'. toggle_follow a t d = Inr (True, d') \<and> counters_consistent d' \<and>
           follows d' = follows d @ [(a, t)] \<and> likes d' = likes d \<and>
           map post_id (posts d') = map post_id (posts d) \<and>
           map user_id (users d') = map user_id (users d)"
proof -
  have f1: "\<not> list_ex (\<lambda>u. user_id u = a \<and> following_count u + 1 < 0) (users d)"
    using user_counts_nonneg [OF assms(1)] by (fastforce simp: list_ex_iff)
  have f2: "\<not> list_ex (\<lambda>u. user_id u = t \<and> followers_count u + 1 < 0)
     (map (\<lambda>u. if user_id u = a then u\<lparr>following_count := following_count u + 1\<rparr> else u) (users d))"
    using user_counts_nonneg [OF assms(1)] by (fastforce simp: list_ex_iff)
  have inv: "counters_consistent
           (d\<lparr>follows := follows d @ [(a, t)],
                users :=
                  map ((\<lambda>u. if user_id u = t
                            then u\<lparr>followers_count := followers_count u + 1\<rparr>
                            else u) \<circ>
                       (\<lambda>u. if user_id u = a
                            then u\<lparr>following_count := following_count u + 1\<rparr>
                            else u))
                   (users d),
                journal := j\<rparr>)" for j
    using assms(1,2,3)
    by (auto simp: counters_consistent_def list_all_iff followers_of_def following_of_def
        likes_of_def)
  show ?thesis
    using f1 f2 inv
    by (simp add: toggle_follow_add_steps [OF assms(2,3,4,5)] and_then_def
      update_following_count_def update_followers_count_def execute_def)
qed

lemma find_post_map:
  "p \<in> post_id ` set ps \<Longrightarrow> (\<And>r. post_id (f r) = post_id r) \<Longrightarrow>
   \<exists>r. find (\<lambda>r. post_id r = p) (map f ps) = Some r"
  by (cases "find (\<lambda>r. post_id r = p) (map f ps)") (auto simp: find_None_iff)

lemma like_post_remove:
  assumes "counters_consistent d" "p \<in> post_id ` set (posts d)" "(u, p) \<in> set (likes d)"
  shows "\<exists>r d'. like_post p u d = Inr ((False, r), d') \<and> counters_consistent d' \<and>
           likes d' = removeAll (u, p) (likes d) \<and> follows d' = follows d \<and>
           map post_id (posts d') = map post_id (posts d) \<and> users d' = users d"
proof -
  let ?f = "\<lambda>r. if post_id r = p then r\<lparr>like_count := like_count r + - 1\<rparr> else r"
  have f1: "\<not> list_ex (\<lambda>r. post_id r = p \<and> like_count r + (- 1) < 0) (posts d)"
    using like_count_pos [OF assms(1) assms(3)] by (fastforce simp: list_ex_iff)
  have "\<exists>r. find (\<lambda>r. post_id r = p) (map ?f (posts d)) = Some r"
    by (rule find_post_map [OF assms(2)]) simp
  then obtain r where r: "find (\<lambda>r. post_id r = p) (map ?f (posts d)) = Some r"
    by blast
  have inv: "counters_consistent
           (d\<lparr>likes := removeAll (u, p) (likes d), posts := map ?f (posts d), journal := j\<rparr>)" for j
    using assms
    by (auto simp: counters_consistent_def list_all_iff followers_of_def following_of_def
        likes_of_def length_filter_removeAll distinct_removeAll)
  have ids: "map (post_id \<circ> ?f) (posts d) = map post_id (posts d)"
    by (rule map_cong) auto
  show ?thesis
    using assms(3) f1 r inv ids
    by (simp add: like_post_def likes_exists_def atomic_def and_then_def
      likes_remove_def update_like_count_def refresh_from_db_def execute_def)
qed

lemma like_post_add:
  assumes "counters_consistent d" "p \<in> post_id ` set (posts d)" "(u, p) \<notin> set (likes d)"
    and "u \<in> set (map user_id (users d))"
  shows "\<exists>r d'. like_post p u d = Inr ((True, r), d') \<and> counters_consistent d' \<and>
           likes d' = likes d @ [(u, p)] \<and> follows d' = follows d \<and>
           map post_id (posts d') = map post_id (posts d) \<and> users d' = users d"
proof -
  let ?f = "\<lambda>r. if post_id r = p then r\<lparr>like_count := like_count r + 1\<rparr> else r"
  have f1: "\<not> list_ex (\<lambda>r. post_id r = p \<and> like_count r + 1 < 0) (posts d)"
    using like_count_nonneg [OF assms(1)] by (fastforce simp: list_ex_iff)
  have "\<exists>r. find (\<lambda>r. post_id r = p) (map ?f (posts d)) = Some r"
    by (rule find_post_map [OF assms(2)]) simp
  then obtain r where r: "find (\<lambda>r. post_id r = p) (map ?f (posts d)) = Some r"
    by blast
  have inv: "counters_consistent
           (d\<lparr>likes := likes d @ [(u, p)], posts := map ?f (posts d), journal := j\<rparr>)" for j
    using assms(1,2,3)
    by (auto simp: counters_consistent_def list_all_iff followers_of_def following_of_def
        likes_of_def)
  have ids: "map (post_id \<circ> ?f) (posts d) = map post_id (posts d)"
    by (rule map_cong) auto
  show ?thesis
    using f1 r inv ids
    by (simp add: like_post_add_steps [OF assms(3,4)] and_then_def
      update_like_count_def refresh_from_db_def execute_def)
qed

lemma known_cong:
  "map user_id (users d') = map user_id (users d) \<Longrightarrow>
   map post_id (posts d') = map post_id (posts d) \<Longrightarrow> known d' x = known d x"
  by (cases x) simp_all

lemma apply_toggle_step:
  assumes "counters_consistent d" "known d x"
  shows "\<exists>d'. apply_toggle x d = Inr d' \<and> toggled d x d'"
proof (cases x)
  case (Like u p)
  then have p: "p \<in> post_id ` set (posts d)" and u: "u \<in> set (map user_id (users d))"
    using assms(2) by simp_all
  show ?thesis
  proof (cases "(u, p) \<in> set (likes d)")
    case True
    from like_post_remove [OF assms(1) p True] Like True show ?thesis
      by (auto simp: toggled_def and_then_def)
  next
    case False
    from like_post_add [OF assms(1) p False u] Like False show ?thesis
      by (auto simp: toggled_def and_then_def)
  qed
next
  case (Follow a t)
  then have a: "a \<in> set (map user_id (users d))" and t: "t \<in> set (map user_id (users d))"
    using assms(2) by simp_all
  show ?thesis
  proof (cases "a = t")
    case True
    with Follow assms(1) show ?thesis
      by (auto simp: toggled_def and_then_def toggle_follow_def)
  next
    case ne: False
    show ?thesis
    proof (cases "(a, t) \<in> set (follows d)")
      case True
      from toggle_follow_remove [OF assms(1) ne True] Follow True ne show ?thesis
        by (auto simp: toggled_def and_then_def)
    next
      case False
      from toggle_follow_add [OF assms(1) ne False a t] Follow False ne show ?thesis
        by (auto simp: toggled_def and_then_def)
    qed
  qed
qed

lemma run_toggles_result:
  assumes "counters_consistent d" "\<forall>x\<in>set ops. known d x"
  shows "\<exists>d'. run_toggles ops d = Inr d' \<and> counters_consistent d' \<and>
           (\<forall>a t. ((a, t) \<in> set (follows d')) =
                  (((a, t) \<in> set (follows d)) \<noteq> (a \<noteq> t \<and> odd (count_list ops (Follow a t))))) \<and>
           (\<forall>u p. ((u, p) \<in> set (likes d')) =
                  (((u, p) \<in> set (likes d)) \<noteq> odd (count_list ops (Like u p))))"
  using assms
proof (induction ops arbitrary: d)
  case Nil
  then show ?case by simp
next
  case (Cons x xs)
  have "known d x" using Cons.prems(2) by simp
  from apply_toggle_step [OF Cons.prems(1) this]
  obtain d1 where d1: "apply_toggle x d = Inr d1" "toggled d x d1" by auto
  have ids: "map post_id (posts d1) = map post_id (posts d)"
    and uids: "map user_id (users d1) = map user_id (users d)"
    and inv1: "counters_consistent d1"
    using d1(2) by (simp_all add: toggled_def)
  have ex: "\<forall>y\<in>set xs. known d1 y"
    using Cons.prems(2) known_cong [OF uids ids] by simp
  from Cons.IH [OF inv1 ex] obtain d' where d':
    "run_toggles xs d1 = Inr d'" "counters_consistent d'"
    "\<forall>a t. ((a, t) \<in> set (follows d')) =
                  (((a, t) \<in> set (follows d1)) \<noteq> (a \<noteq> t \<and> odd (count_list xs (Follow a t))))"
    "\<forall>u p. ((u, p) \<in> set (likes d')) =
                  (((u, p) \<in> set (likes d1)) \<noteq> odd (count_list xs (Like u p)))"
    by (elim exE conjE) (rule that, assumption+)
  have fo: "\<forall>a t. ((a, t) \<in> set (follows d1)) = (((a, t) \<in> set (follows d)) \<noteq> (x = Follow a t \<and> a \<noteq> t))"
   and li: "\<forall>u p. ((u, p) \<in> set (likes d1)) = (((u, p) \<in> set (likes d)) \<noteq> (x = Like u p))"
    using d1(2) by (simp_all add: toggled_def)
  have "run_toggles (x # xs) d = Inr d'" using d1(1) d'(1) by (simp add: and_then_def)
  moreover have "\<forall>a t. ((a, t) \<in> set (follows d')) =
                  (((a, t) \<in> set (follows d)) \<noteq> (a \<noteq> t \<and> odd (count_list (x # xs) (Follow a t))))"
    using d'(3) fo by auto
  moreover have "\<forall>u p. ((u, p) \<in> set (likes d')) =
                  (((u, p) \<in> set (likes d)) \<noteq> odd (count_list (x # xs) (Like u p)))"
    using d'(4) li by auto
  ultimately show ?case using d'(2) by blast
qed

text \<open>
  Claim C1, as the code has it. From a database whose counters are consistent, every
  sequence of \<^verbatim>\<open>like_post\<close> and \<^verbatim>\<open>toggle_follow\<close> calls whose users and posts
  have rows runs without an exception; afterwards a like edge, and a follow edge between two
  different users, is present iff it was present before and toggled an even number of
  times, or absent before and toggled an odd number of times; a follow edge from a user
  to itself is never changed, since \<^verbatim>\<open>toggle_follow\<close> returns at once on it; and
  \<open>like_count\<close>, \<open>followers_count\<close> and \<open>following_count\<close> again equal the number
  of edges they mirror.
\<close>

theorem toggle_sequence_consistent:
  assumes "counters_consistent d"
    and "\<forall>u p. Like u p \<in> set ops \<longrightarrow>
           u \<in> set (map user_id (users d)) \<and> p \<in> set (map post_id (posts d))"
    and "\<forall>a t. Follow a t \<in> set ops \<longrightarrow>
           a \<in> set (map user_id (users d)) \<and> t \<in> set (map user_id (users d))"
  shows "\<exists>d'. run_toggles ops d = Inr d' \<and> counters_consistent d' \<and>
           (\<forall>a t. a \<noteq> t \<longrightarrow>
              ((a, t) \<in> set (follows d')) =
              (((a, t) \<in> set (follows d)) \<noteq> odd (count_list ops (Follow a t)))) \<and>
           (\<forall>a. ((a, a) \<in> set (follows d')) = ((a, a) \<in> set (follows d))) \<and>
           (\<forall>u p. ((u, p) \<in> set (likes d')) =
              (((u, p) \<in> set (likes d)) \<noteq> odd (count_list ops (Like u p))))"
proof -
  have "known d x" if "x \<in> set ops" for x
  proof (cases x)
    case (Like u p)
    with that assms(2) show ?thesis by simp
  next
    case (Follow a t)
    with that assms(3) show ?thesis by simp
  qed
  then have k: "\<forall>x\<in>set ops. known d x" by blast
  from run_toggles_result [OF assms(1) k] obtain d' where d':
    "run_toggles ops d = Inr d'" "counters_consistent d'"
    "\<forall>a t. ((a, t) \<in> set (follows d')) =
                  (((a, t) \<in> set (follows d)) \<noteq> (a \<noteq> t \<and> odd (count_list ops (Follow a t))))"
    "\<forall>u p. ((u, p) \<in> set (likes d')) =
                  (((u, p) \<in> set (likes d)) \<noteq> odd (count_list ops (Like u p)))"
    by (elim exE conjE) (rule that, assumption+)
  have "\<forall>a t. a \<noteq> t \<longrightarrow>
              ((a, t) \<in> set (follows d')) =
              (((a, t) \<in> set (follows d)) \<noteq> odd (count_list ops (Follow a t)))"
    using d'(3) by simp
  moreover have "\<forall>a. ((a, a) \<in> set (follows d')) = ((a, a) \<in> set (follows d))"
    using d'(3) by simp
  ultimately show ?thesis using d'(1,2,4) by blast
qed

theorem toggle_sequence_consistent_witness:
  "counters_consistent example_db \<and>
   (\<exists>d'. run_toggles [Follow 1 2, Like 2 10, Follow 1 2, Follow 1 2] example_db = Inr d' \<and>
      counters_consistent d' \<and> (1, 2) \<in> set (follows d') \<and> (2, 10) \<in> set (likes d'))"
proof -
  have h1: "counters_consistent example_db"
    by (simp add: counters_consistent_def example_db_def example_user_def example_post_def
        followers_of_def following_of_def likes_of_def)
  have h2: "\<forall>u p. Like u p \<in> set [Follow 1 2, Like 2 10, Follow 1 2, Follow 1 2] \<longrightarrow>
           u \<in> set (map user_id (users example_db)) \<and> p \<in> set (map post_id (posts example_db))"
    by (simp add: example_db_def example_post_def example_user_def)
  have h3: "\<forall>a t. Follow a t \<in> set [Follow 1 2, Like 2 10, Follow 1 2, Follow 1 2] \<longrightarrow>
           a \<in> set (map user_id (users example_db)) \<and> t \<in> set (map user_id (users example_db))"
    by (simp add: example_db_def example_post_def example_user_def)
  have e1: "(1, 2) \<notin> set (follows example_db)" and e2: "(2, 10) \<notin> set (likes example_db)"
    by (simp_all add: example_db_def)
  from toggle_sequence_consistent [OF h1 h2 h3] obtain d' where d':
    "run_toggles [Follow 1 2, Like 2 10, Follow 1 2, Follow 1 2] example_db = Inr d'"
    "counters_consistent d'"
    "\<forall>a t. a \<noteq> t \<longrightarrow>
              ((a, t) \<in> set (follows d')) =
              (((a, t) \<in> set (follows example_db)) \<noteq>
               odd (count_list [Follow 1 2, Like 2 10, Follow 1 2, Follow 1 2] (Follow a t)))"
    "\<forall>u p. ((u, p) \<in> set (likes d')) =
              (((u, p) \<in> set (likes example_db)) \<noteq>
               odd (count_list [Follow 1 2, Like 2 10, Follow 1 2, Follow 1 2] (Like u p)))"
    by (elim exE conjE) (rule that, assumption+)
  have "(1, 2) \<in> set (follows d')"
    using d'(3) [rule_format, of 1 2] e1 by simp
  moreover have "(2, 10) \<in> set (likes d')"
    using d'(4) [rule_format, of 2 10] e2 by simp
  ultimately show ?thesis using h1 d'(1,2) by blast
qed

text \<open>
  Claim C1 as stated, for any actors against any targets, fails on a self-follow: one
  call \<^verbatim>\<open>u.toggle_follow(u)\<close> is an odd number of toggles of the pair, and the edge
  is absent afterwards.
\<close>

theorem toggle_self_follow_counterexample:
  "counters_consistent example_db \<and>
   odd (count_list [Follow 1 1] (Follow 1 1)) \<and>
   run_toggles [Follow 1 1] example_db = Inr example_db \<and>
   (1, 1) \<notin> set (follows example_db)"
  by (simp add: counters_consistent_def example_db_def example_user_def example_post_def
        followers_of_def following_of_def likes_of_def toggle_follow_def and_then_def)

text \<open>
  A call that names a user without a row does not return: the foreign keys of the edge
  tables refuse the new edge.
\<close>

lemma toggle_unknown_user_raises:
  "run_toggles [Follow 1 99] example_db = Inl IntegrityError \<and>
   run_toggles [Like 99 10] example_db = Inl IntegrityError"
  by (simp add: toggle_follow_def like_post_def example_db_def example_user_def
      example_post_def followers_exists_def followers_add_def likes_exists_def likes_add_def
      atomic_def and_then_def execute_def)

section \<open>Where the existence check runs\<close>

text \<open>
  Claim C4 against the code. \<^verbatim>\<open>like_post\<close> checks for the like edge inside its atomic
  block, but \<^verbatim>\<open>toggle_follow\<close> checks for the follow edge before it enters the
  block: in the journal of a follow by user 1 of user 2 the existence check is the one
  statement that ran outside a transaction, while every statement of a like ran inside.
\<close>

theorem toggle_follow_checks_before_atomic:
  "map_sum id (\<lambda>(r, d). (r, journal d)) (toggle_follow 1 2 example_db) =
     Inr (True, [(Followers_exists, False), (Followers_add, True),
                 (Update_following_count, True), (Update_followers_count, True)]) \<and>
   map_sum id (\<lambda>((r, p), d). (r, journal d)) (like_post 10 2 example_db) =
     Inr (True, [(Likes_exists, True), (Likes_add, True),
                 (Update_like_count, True), (Refresh_post, True)])"
  by (simp add: toggle_follow_def like_post_def example_db_def example_user_def example_post_def
      followers_exists_def followers_add_def update_following_count_def update_followers_count_def
      likes_exists_def likes_add_def update_like_count_def refresh_from_db_def
      atomic_def and_then_def execute_def)

section \<open>Self-follow\<close>

text \<open>
  Claim C9. A follow request of an authenticated user whose target is that same user is
  answered with the error 400 ``You cannot follow yourself.'', and the database (the
  follow edges, every counter, the journal) is what it was; the model method
  \<^verbatim>\<open>toggle_follow\<close> on actor = target returns \<open>False\<close> and changes nothing either.
\<close>

theorem self_follow_rejected:
  assumes "req_user request = Some u" and "http_method request = ''PUT''"
    and "find (\<lambda>r. user_id r = u) (users d) = Some row"
  shows "follow_view lib request u d =
           (JsonResponse (Error_payload ''You cannot follow yourself.'') 400, d) \<and>
         toggle_follow u u d = Inr (False, d)"
proof -
  have "user_id row = u" using assms(3) by (auto simp: find_Some_iff)
  then show ?thesis using assms
    by (simp add: follow_view_def require_http_methods_def get_user_def toggle_follow_def)
qed

theorem self_follow_rejected_witness:
  "follow_view example_lib
     \<lparr>http_method = ''PUT'', req_user = Some 1, GET = Map.empty, body = Empty_body\<rparr> 1 example_db =
     (JsonResponse (Error_payload ''You cannot follow yourself.'') 400, example_db) \<and>
   toggle_follow 1 1 example_db = Inr (False, example_db)"
proof -
  have h: "find (\<lambda>r. user_id r = 1) (users example_db) = Some (example_user 1)"
    by (simp add: example_db_def example_user_def)
  show ?thesis
    using self_follow_rejected [of "\<lparr>http_method = ''PUT'', req_user = Some 1, GET = Map.empty, body = Empty_body\<rparr>" 1 example_db "example_user 1" example_lib] h
    by simp
qed

section \<open>The cursor paginator\<close>

lemma before_key: "before p q = ((- timestamp p, - post_id p) < (- timestamp q, - post_id q))"
  by (auto simp: before_def less_prod_def)

lemma after_cursor_before: "after_cursor (timestamp x) (post_id x) p = before x p"
  by (auto simp: after_cursor_def before_def)

lemma order_by_set: "set (order_by qs) = set qs"
  by (simp add: order_by_def)

lemma order_by_length: "length (order_by qs) = length qs"
  by (simp add: order_by_def)

lemma order_by_filter: "filter P (order_by qs) = order_by (filter P qs)"
  by (simp add: order_by_def filter_sort)

lemma order_by_sorted:
  assumes "distinct (map post_id qs)"
  shows "sorted_wrt before (order_by qs)"
proof -
  let ?k = "\<lambda>p. (- timestamp p, - post_id p)"
  have inj: "inj_on ?k (set qs)"
    using assms by (auto simp: inj_on_def distinct_map)
  have "distinct qs" using assms by (simp add: distinct_map)
  then have "distinct (map ?k (sort_key ?k qs))"
    using inj by (simp add: distinct_map)
  moreover have "sorted (map ?k (sort_key ?k qs))" by (rule sorted_sort_key)
  ultimately have "sorted_wrt (<) (map ?k (sort_key ?k qs))"
    by (simp add: strict_sorted_iff)
  then have "sorted_wrt (\<lambda>p q. ?k p < ?k q) (sort_key ?k qs)"
    by (simp only: sorted_wrt_map)
  moreover have "(\<lambda>p q. ?k p < ?k q) = before"
    by (rule ext, rule ext) (simp only: before_key)
  ultimately show ?thesis
    by (simp only: order_by_def)
qed

lemma before_irrefl: "\<not> before p p"
  by (simp add: before_def)

lemma before_asym: "before p q \<Longrightarrow> \<not> before q p"
  by (auto simp: before_def)

lemma filter_before_drop:
  assumes "sorted_wrt before xs" "k < length xs"
  shows "filter (before (xs ! k)) xs = drop (Suc k) xs"
proof -
  have split: "xs = take k xs @ xs ! k # drop (Suc k) xs"
    using assms(2) by (rule id_take_nth_drop)
  have s: "sorted_wrt before (take k xs @ xs ! k # drop (Suc k) xs)"
    using assms(1) split by simp
  have a: "\<forall>p\<in>set (take k xs). \<not> before (xs ! k) p"
    using s by (auto simp: sorted_wrt_append dest: before_asym)
  have b: "\<forall>p\<in>set (drop (Suc k) xs). before (xs ! k) p"
    using s by (auto simp: sorted_wrt_append)
  have "filter (before (xs ! k)) (take k xs @ xs ! k # drop (Suc k) xs) = drop (Suc k) xs"
    using a b by (simp add: before_irrefl filter_empty_conv)
  with split show ?thesis by simp
qed

lemma paginate_first:
  "\<not> (truthy ts \<and> truthy pid) \<Longrightarrow>
   paginate_posts lib qs ts pid =
     Inr (Result_tuple None (10 < length qs) (take 10 (order_by qs)))"
  by (cases ts; cases pid)
     (auto simp: paginate_posts_def fetch_def POST_LIMIT_def Let_def order_by_length min_def)

lemma paginate_cursor:
  assumes "s1 \<noteq> []" "s2 \<noteq> []" "parse_datetime lib s1 = Inr (Some t)" "int_of_str lib s2 = Some i"
    and "bind_cursor lib t i = None"
  shows "paginate_posts lib qs (Some s1) (Some s2) =
     Inr (Result_tuple None (10 < length (filter (after_cursor t i) qs))
       (take 10 (order_by (filter (after_cursor t i) qs))))"
  using assms
  by (auto simp: paginate_posts_def POST_LIMIT_def Let_def parse_cursor_def fetch_def
      order_by_filter order_by_length min_def)

lemma paginate_unbound:
  assumes "s1 \<noteq> []" "s2 \<noteq> []" "parse_datetime lib s1 = Inr (Some t)" "int_of_str lib s2 = Some i"
    and "bind_cursor lib t i = Some e"
  shows "paginate_posts lib qs (Some s1) (Some s2) = Inl e"
  using assms
  by (simp add: paginate_posts_def Let_def parse_cursor_def fetch_def)

lemma paginate_continue:
  assumes "sorted_wrt before (order_by qs)" "j < length qs" "round_trip lib (order_by qs ! j)"
  shows "paginate_posts lib qs (Some (isoformat lib (timestamp (order_by qs ! j))))
           (Some (str_of_int lib (post_id (order_by qs ! j)))) =
         Inr (Result_tuple None (10 < length (drop (Suc j) (order_by qs)))
           (take 10 (drop (Suc j) (order_by qs))))"
proof -
  let ?l = "order_by qs ! j"
  have j: "j < length (order_by qs)" using assms(2) by (simp add: order_by_length)
  have f: "filter (after_cursor (timestamp ?l) (post_id ?l)) (order_by qs) = drop (Suc j) (order_by qs)"
    using filter_before_drop [OF assms(1) j] by (simp add: after_cursor_before [abs_def])
  have len: "length (filter (after_cursor (timestamp ?l) (post_id ?l)) qs) =
             length (drop (Suc j) (order_by qs))"
    using f by (metis order_by_filter order_by_length)
  have "paginate_posts lib qs (Some (isoformat lib (timestamp ?l))) (Some (str_of_int lib (post_id ?l))) =
     Inr (Result_tuple None (10 < length (filter (after_cursor (timestamp ?l) (post_id ?l)) qs))
       (take 10 (order_by (filter (after_cursor (timestamp ?l) (post_id ?l)) qs))))"
    using assms(3) by (intro paginate_cursor) (simp_all add: round_trip_def)
  then show ?thesis
    using f len by (simp only: order_by_filter [symmetric])
qed

lemma feed_pages_from:
  assumes sorted: "sorted_wrt before (order_by qs)"
    and rt: "\<forall>p\<in>set qs. round_trip lib p"
  shows "k \<le> length qs \<Longrightarrow> length qs - k < n \<Longrightarrow>
         paginate_posts lib qs ts pid =
           Inr (Result_tuple None (10 < length (drop k (order_by qs)))
                  (take 10 (drop k (order_by qs)))) \<Longrightarrow>
         feed_pages lib qs n ts pid = Some (drop k (order_by qs))"
proof (induction n arbitrary: k ts pid)
  case 0
  then show ?case by simp
next
  case (Suc n)
  let ?xs = "order_by qs"
  let ?rest = "drop k ?xs"
  have lenxs: "length ?xs = length qs" by (rule order_by_length)
  show ?case
  proof (cases "10 < length ?rest")
    case False
    then have "take 10 ?rest = ?rest" by simp
    with False Suc.prems(3) show ?thesis
      by (simp split: list.split)
  next
    case True
    let ?j = "k + 9"
    have j: "?j < length qs" using True lenxs by simp
    have page_ne: "take 10 ?rest \<noteq> []" using True by auto
    have "last (take 10 ?rest) = ?rest ! 9"
      using True by (simp add: last_conv_nth min_def)
    then have last_eq: "last (take 10 ?rest) = ?xs ! ?j"
      using True by simp
    obtain l ls where rv: "rev (take 10 ?rest) = l # ls"
      using page_ne by (cases "rev (take 10 ?rest)") auto
    have "l = last (take 10 ?rest)"
      using rv page_ne by (metis last_rev list.sel(1) rev_rev_ident hd_rev)
    then have l: "l = ?xs ! ?j" using last_eq by simp
    have "?xs ! ?j \<in> set qs"
      using j lenxs by (metis nth_mem order_by_set)
    then have rtl: "round_trip lib (?xs ! ?j)" using rt by blast
    have next_page: "paginate_posts lib qs (Some (isoformat lib (timestamp l)))
           (Some (str_of_int lib (post_id l))) =
         Inr (Result_tuple None (10 < length (drop (k + 10) ?xs)) (take 10 (drop (k + 10) ?xs)))"
      using paginate_continue [OF sorted j rtl] l by (simp add: add.commute)
    have "feed_pages lib qs n (Some (isoformat lib (timestamp l)))
           (Some (str_of_int lib (post_id l))) = Some (drop (k + 10) ?xs)"
      using Suc.prems(2) j by (intro Suc.IH next_page) simp_all
    moreover have "take 10 ?rest @ drop (k + 10) ?xs = ?rest"
      by (metis add.commute append_take_drop_id drop_drop)
    ultimately show ?thesis
      using True Suc.prems(3) rv by simp
  qed
qed

lemma order_by_is_feed_order:
  "distinct (map post_id qs) \<Longrightarrow> is_feed_order qs (order_by qs)"
  by (simp add: is_feed_order_def order_by_sorted order_by_set order_by_length)

lemma distinct_ids_filter: "distinct (map post_id qs) \<Longrightarrow> distinct (map post_id (filter P qs))"
  by (simp add: distinct_map_filter)

text \<open>
  Claim C2. Over any set of posts with distinct ids, a request without a cursor returns
  the first 10 posts of the set in (timestamp descending, id descending) order, and a
  request with a valid cursor, one whose fields parse to \<open>(t, i)\<close> and that the
  backend takes as query parameters, returns the first 10, in that order, of the posts
  with \<open>timestamp < t\<close>, or \<open>timestamp = t\<close> and \<open>id < i\<close>; \<open>has_next\<close> is true iff
  there are more than 10 such posts.
\<close>

theorem paginate_posts_page:
  assumes "distinct (map post_id qs)"
  shows "(\<exists>xs. is_feed_order qs xs \<and>
            paginate_posts lib qs None None =
              Inr (Result_tuple None (10 < length qs) (take 10 xs))) \<and>
         (\<forall>s1 s2 t i.
            s1 \<noteq> [] \<and> s2 \<noteq> [] \<and> parse_datetime lib s1 = Inr (Some t) \<and>
            int_of_str lib s2 = Some i \<and> bind_cursor lib t i = None \<longrightarrow>
            (\<exists>ys. is_feed_order
                    (filter (\<lambda>p. timestamp p < t \<or> (timestamp p = t \<and> post_id p < i)) qs) ys \<and>
               paginate_posts lib qs (Some s1) (Some s2) =
                 Inr (Result_tuple None
                        (10 < length
                           (filter (\<lambda>p. timestamp p < t \<or> (timestamp p = t \<and> post_id p < i)) qs))
                        (take 10 ys))))"
proof (intro conjI allI impI)
  show "\<exists>xs. is_feed_order qs xs \<and>
            paginate_posts lib qs None None =
              Inr (Result_tuple None (10 < length qs) (take 10 xs))"
    using order_by_is_feed_order [OF assms] paginate_first [of None None lib qs] by auto
next
  fix s1 s2 t i
  let ?R = "filter (\<lambda>p. timestamp p < t \<or> (timestamp p = t \<and> post_id p < i)) qs"
  assume h: "s1 \<noteq> [] \<and> s2 \<noteq> [] \<and> parse_datetime lib s1 = Inr (Some t) \<and>
            int_of_str lib s2 = Some i \<and> bind_cursor lib t i = None"
  have R: "filter (after_cursor t i) qs = ?R"
    by (simp add: after_cursor_def [abs_def])
  have "is_feed_order ?R (order_by ?R)"
    using assms by (intro order_by_is_feed_order distinct_ids_filter)
  moreover have "paginate_posts lib qs (Some s1) (Some s2) =
     Inr (Result_tuple None (10 < length (filter (after_cursor t i) qs))
       (take 10 (order_by (filter (after_cursor t i) qs))))"
    using h by (intro paginate_cursor) simp_all
  ultimately show "\<exists>ys. is_feed_order ?R ys \<and>
               paginate_posts lib qs (Some s1) (Some s2) =
                 Inr (Result_tuple None (10 < length ?R) (take 10 ys))"
    unfolding R by blast
qed

theorem paginate_posts_page_witness:
  "(\<exists>xs. is_feed_order example_posts xs \<and>
      paginate_posts example_lib example_posts None None =
        Inr (Result_tuple None (10 < length example_posts) (take 10 xs))) \<and>
   (\<exists>ys. is_feed_order
            (filter (\<lambda>p. timestamp p < 6 \<or> (timestamp p = 6 \<and> post_id p < 7)) example_posts) ys \<and>
      paginate_posts example_lib example_posts (Some ''6'') (Some ''7'') =
        Inr (Result_tuple None
               (10 < length
                  (filter (\<lambda>p. timestamp p < 6 \<or> (timestamp p = 6 \<and> post_id p < 7))
                     example_posts))
               (take 10 ys)))"
proof -
  have h: "distinct (map post_id example_posts)"
    by (simp add: example_posts_def example_post_def)
  have c: "''6'' \<noteq> [] \<and> ''7'' \<noteq> [] \<and> parse_datetime example_lib ''6'' = Inr (Some 6) \<and>
            int_of_str example_lib ''7'' = Some 7 \<and> bind_cursor example_lib 6 7 = None"
    by (simp add: example_lib_def digit_of_def)
  show ?thesis
    using paginate_posts_page [OF h, of example_lib] c by blast
qed

text \<open>
  Claim C3. Over any set of posts with distinct ids, whatever their timestamps, a client
  that starts without a cursor and sends back the timestamp and id of the last post of
  each page gets, after at most one request per post and one more, all pages; their
  concatenation lists every post of the set exactly once, in strict (timestamp
  descending, id descending) order. The library has to read back the timestamps and ids
  that it printed, and the backend has to take the timestamps and ids that it stored.
\<close>

theorem feed_pages_complete:
  assumes "distinct (map post_id qs)" and "\<forall>p\<in>set qs. round_trip lib p" and "length qs < n"
  shows "\<exists>all. feed_pages lib qs n None None = Some all \<and> is_feed_order qs all \<and> distinct all"
proof -
  have s: "sorted_wrt before (order_by qs)" using assms(1) by (rule order_by_sorted)
  have "paginate_posts lib qs None None =
          Inr (Result_tuple None (10 < length (drop 0 (order_by qs)))
                 (take 10 (drop 0 (order_by qs))))"
    using paginate_first [of None None lib qs] by (simp add: order_by_length)
  then have "feed_pages lib qs n None None = Some (drop 0 (order_by qs))"
    using assms(3) by (intro feed_pages_from [OF s assms(2)]) simp_all
  moreover have "distinct (order_by qs)"
    using assms(1) by (simp add: order_by_def distinct_map)
  ultimately show ?thesis
    using order_by_is_feed_order [OF assms(1)] by simp
qed

theorem feed_pages_complete_witness:
  "\<exists>all. feed_pages example_lib example_posts 13 None None = Some all \<and>
     is_feed_order example_posts all \<and> distinct all"
proof -
  have h1: "distinct (map post_id example_posts)"
    by (simp add: example_posts_def example_post_def)
  have h2: "\<forall>p\<in>set example_posts. round_trip example_lib p"
    by code_simp
  have h3: "length example_posts < 13"
    by (simp add: example_posts_def)
  show ?thesis
    using feed_pages_complete [OF h1 h2 h3] .
qed

section \<open>The feed views\<close>

lemma get_posts_cases:
  "(\<exists>qs. get_posts lib request f d = (None, qs, 200)) \<or>
   (\<exists>m st. get_posts lib request f d = (Some m, [], st) \<and> m \<noteq> [] \<and> (st = 401 \<or> st = 404))"
  by (auto simp: get_posts_def Let_def split: option.splits)

lemma paginate_malformed:
  assumes "s1 \<noteq> []" "s2 \<noteq> []"
    and "(\<forall>t. parse_datetime lib s1 \<noteq> Inr (Some t)) \<or> int_of_str lib s2 = None"
  shows "paginate_posts lib qs (Some s1) (Some s2) =
           Inr (Result_dict [(''error'', Some ''Error parsing post data.''),
                             (''has_next'', None), (''return_posts'', None)])"
  using assms
  by (auto simp: paginate_posts_def parse_cursor_def Let_def split: sum.splits option.splits)

lemma order_by_Nil_iff: "(order_by qs = []) = (qs = [])"
  using order_by_length [of qs] by (metis length_0_conv)

text \<open>
  Claim C5, as the code has it. A continuation request whose two cursor fields are both
  given and not empty, and of which the timestamp does not parse to a timestamp or the id
  is not an integer, is answered with an error message and a client-error status: 400
  with the message \<^verbatim>\<open>error\<close> (the first key of the dictionary that
  \<^verbatim>\<open>paginate_posts\<close> returns, which is what unpacking it binds) when the view itself
  is accepted, and the 401 or 404 of the view otherwise; never a page of posts and never
  the empty 204 answer.
\<close>

theorem malformed_cursor_is_client_error:
  assumes "http_method request = ''GET''"
    and "GET request ''timestamp'' = Some s1" and "GET request ''post_id'' = Some s2"
    and "s1 \<noteq> []" and "s2 \<noteq> []"
    and "(\<forall>t. parse_datetime lib s1 \<noteq> Inr (Some t)) \<or> int_of_str lib s2 = None"
  shows "\<exists>m st. get_more_posts lib request f d = JsonResponse (Error_payload m) st \<and>
           m \<noteq> [] \<and> (st = 400 \<or> st = 401 \<or> st = 404) \<and>
           (fst (get_posts lib request f d) = None \<longrightarrow> m = ''error'' \<and> st = 400)"
proof -
  note pm = paginate_malformed [OF assms(4,5,6)]
  consider qs where "get_posts lib request f d = (None, qs, 200)"
    | m st where "get_posts lib request f d = (Some m, [], st)" "m \<noteq> []" "st = 401 \<or> st = 404"
    using get_posts_cases [of lib request f d] by blast
  then show ?thesis
  proof cases
    case 1
    then show ?thesis
      using assms(1,2,3) pm [of qs]
      by (simp add: get_more_posts_def require_http_methods_def)
  next
    case 2
    then show ?thesis
      using assms(1)
      by (auto simp: get_more_posts_def require_http_methods_def)
  qed
qed

theorem malformed_cursor_is_client_error_witness:
  "\<exists>m st. get_more_posts example_lib
       (example_request ''GET'' None [(''timestamp'', ''data-que-nao-existe''), (''post_id'', ''abc'')]
          Empty_body) ''all'' example_db = JsonResponse (Error_payload m) st \<and>
     m = ''error'' \<and> st = 400"
proof -
  let ?r = "example_request ''GET'' None
              [(''timestamp'', ''data-que-nao-existe''), (''post_id'', ''abc'')] Empty_body"
  have h1: "http_method ?r = ''GET''" by (simp add: example_request_def)
  have h2: "GET ?r ''timestamp'' = Some ''data-que-nao-existe''" by (simp add: example_request_def)
  have h3: "GET ?r ''post_id'' = Some ''abc''" by (simp add: example_request_def)
  have h4: "''data-que-nao-existe'' \<noteq> []" and h5: "''abc'' \<noteq> []" by simp_all
  have h6: "(\<forall>t. parse_datetime example_lib ''data-que-nao-existe'' \<noteq> Inr (Some t)) \<or>
            int_of_str example_lib ''abc'' = None"
    by (simp add: example_lib_def digit_of_def)
  have g: "fst (get_posts example_lib ?r ''all'' example_db) = None"
    by (simp add: get_posts_def)
  from malformed_cursor_is_client_error [OF h1 h2 h3 h4 h5 h6, of "''all''" example_db] g
  show ?thesis by auto
qed

text \<open>
  Claim C5 as stated, for any two cursor fields that are supplied and fail to parse,
  fails when one of them is the empty string: with \<^verbatim>\<open>timestamp=\<close> and
  \<^verbatim>\<open>post_id=abc\<close> the test \<^verbatim>\<open>if timestamp and post_id\<close> is false, the cursor is
  dropped and the first page comes back with status 200.
\<close>

theorem empty_cursor_field_counterexample:
  "GET (example_request ''GET'' None [(''timestamp'', []), (''post_id'', ''abc'')] Empty_body)
     ''timestamp'' = Some [] \<and>
   GET (example_request ''GET'' None [(''timestamp'', []), (''post_id'', ''abc'')] Empty_body)
     ''post_id'' = Some ''abc'' \<and>
   parse_datetime example_lib [] = Inr None \<and>
   int_of_str example_lib ''abc'' = None \<and>
   get_more_posts example_lib
     (example_request ''GET'' None [(''timestamp'', []), (''post_id'', ''abc'')] Empty_body)
     ''all'' example_db =
   JsonResponse
     (Posts_payload
        [\<lparr>j_id = 10, j_user_id = 1, j_user_is_author = False, j_content = ''text'',
          j_timestamp = ''5'', j_like_count = 0, j_comment_count = 0, j_liked = False\<rparr>]
        False) 200"
  by code_simp



text \<open>
  The query itself runs after the \<^verbatim>\<open>try\<close> of \<^verbatim>\<open>paginate_posts\<close>: when the backend
  refuses a cursor that parsed, its exception leaves the view. With the example
  backend, which takes no timestamp before 0, the cursor \<open>(-1, 1)\<close> does so.
\<close>

lemma unbound_cursor_escapes:
  assumes "http_method request = ''GET''" and "get_posts lib request f d = (None, qs, st)"
    and "GET request ''timestamp'' = Some s1" and "GET request ''post_id'' = Some s2"
    and "s1 \<noteq> []" and "s2 \<noteq> []"
    and "parse_datetime lib s1 = Inr (Some t)" and "int_of_str lib s2 = Some i"
    and "bind_cursor lib t i = Some e"
  shows "get_more_posts lib request f d = Unhandled e"
  using assms paginate_unbound [OF assms(5,6,7,8,9), of qs]
  by (simp add: get_more_posts_def require_http_methods_def)

lemma unbound_cursor_example:
  "get_more_posts example_lib
     (example_request ''GET'' None [(''timestamp'', ''-1''), (''post_id'', ''1'')] Empty_body)
     ''all'' example_db = Unhandled OverflowError"
  by code_simp

text \<open>
  Claim C7. \<^verbatim>\<open>get_posts\<close> returns no posts together with: 401 ``User not
  authenticated.'' for the view \<^verbatim>\<open>following\<close> and an anonymous requester; 404 ``User
  not found.'' for the view \<^verbatim>\<open>profile\<close> when \<^verbatim>\<open>get_user\<close> finds no user for the
  \<^verbatim>\<open>user_id\<close> parameter; 404 ``Filter not found.'' for every other view name than
  \<^verbatim>\<open>following\<close>, \<^verbatim>\<open>all\<close> and \<^verbatim>\<open>profile\<close>. Both feed views answer with
  that message and status.
\<close>

theorem feed_assembly_rejects:
  assumes "http_method request = ''GET''"
  shows "(req_user request = None \<longrightarrow>
            get_posts lib request ''following'' d = (Some ''User not authenticated.'', [], 401) \<and>
            posts_view lib request ''following'' d =
              JsonResponse (Error_payload ''User not authenticated.'') 401 \<and>
            get_more_posts lib request ''following'' d =
              JsonResponse (Error_payload ''User not authenticated.'') 401) \<and>
         (get_user lib (case GET request ''user_id'' of None \<Rightarrow> Py_None | Some s \<Rightarrow> Py_str s) d = None \<longrightarrow>
            get_posts lib request ''profile'' d = (Some ''User not found.'', [], 404) \<and>
            posts_view lib request ''profile'' d = JsonResponse (Error_payload ''User not found.'') 404 \<and>
            get_more_posts lib request ''profile'' d =
              JsonResponse (Error_payload ''User not found.'') 404) \<and>
         (f \<noteq> ''following'' \<and> f \<noteq> ''all'' \<and> f \<noteq> ''profile'' \<longrightarrow>
            get_posts lib request f d = (Some ''Filter not found.'', [], 404) \<and>
            posts_view lib request f d = JsonResponse (Error_payload ''Filter not found.'') 404 \<and>
            get_more_posts lib request f d = JsonResponse (Error_payload ''Filter not found.'') 404)"
  using assms
  by (simp add: get_posts_def posts_view_def get_more_posts_def require_http_methods_def Let_def)

theorem feed_assembly_rejects_witness:
  "get_posts example_lib (example_request ''GET'' None [(''user_id'', ''99'')] Empty_body)
     ''following'' example_db = (Some ''User not authenticated.'', [], 401) \<and>
   posts_view example_lib (example_request ''GET'' None [(''user_id'', ''99'')] Empty_body)
     ''profile'' example_db = JsonResponse (Error_payload ''User not found.'') 404 \<and>
   posts_view example_lib (example_request ''GET'' None [(''user_id'', ''99'')] Empty_body)
     ''hack_the_planet'' example_db = JsonResponse (Error_payload ''Filter not found.'') 404"
proof -
  let ?r = "example_request ''GET'' None [(''user_id'', ''99'')] Empty_body"
  have m: "http_method ?r = ''GET''" by (simp add: example_request_def)
  have h1: "req_user ?r = None" by (simp add: example_request_def)
  have h2: "get_user example_lib (case GET ?r ''user_id'' of None \<Rightarrow> Py_None | Some s \<Rightarrow> Py_str s)
              example_db = None"
    by code_simp
  have h3: "''hack_the_planet'' \<noteq> ''following'' \<and> ''hack_the_planet'' \<noteq> ''all'' \<and>
            ''hack_the_planet'' \<noteq> ''profile''"
    by simp
  show ?thesis
    using feed_assembly_rejects [OF m, of example_lib example_db "''hack_the_planet''"] h1 h2 h3
    by blast
qed

text \<open>
  Claim C10, as the code has it. When one of the two cursor fields is missing or empty,
  \<^verbatim>\<open>get_more_posts\<close> ignores the cursor: if the view selects at least one post the
  answer is the first 10 posts of the view with status 200, and if it selects none the
  answer is the empty 204 one; it is never the malformed-cursor error.
\<close>

theorem partial_cursor_is_first_page:
  assumes "http_method request = ''GET''"
    and "\<not> (truthy (GET request ''timestamp'') \<and> truthy (GET request ''post_id''))"
    and "get_posts lib request f d = (None, qs, st)"
  shows "get_more_posts lib request f d =
           (if qs = [] then JsonResponse (Posts_payload [] False) 204
            else JsonResponse
                   (Posts_payload (map (serialize lib request d) (take 10 (order_by qs)))
                      (10 < length qs)) 200)"
  using assms paginate_first [OF assms(2), of lib qs]
  by (simp add: get_more_posts_def require_http_methods_def take_eq_Nil order_by_Nil_iff)

theorem partial_cursor_is_first_page_witness:
  "get_more_posts example_lib (example_request ''GET'' None [(''post_id'', ''abc'')] Empty_body)
     ''all'' example_db =
   JsonResponse
     (Posts_payload
        (map (serialize example_lib
                (example_request ''GET'' None [(''post_id'', ''abc'')] Empty_body) example_db)
           (take 10 (order_by [example_post 10 1 5])))
        (10 < length [example_post 10 1 5])) 200"
proof -
  let ?r = "example_request ''GET'' None [(''post_id'', ''abc'')] Empty_body"
  have h1: "http_method ?r = ''GET''" by (simp add: example_request_def)
  have h2: "\<not> (truthy (GET ?r ''timestamp'') \<and> truthy (GET ?r ''post_id''))"
    by (simp add: example_request_def)
  have h3: "get_posts example_lib ?r ''all'' example_db = (None, [example_post 10 1 5], 200)"
    by code_simp
  show ?thesis
    using partial_cursor_is_first_page [OF h1 h2 h3] by simp
qed

text \<open>
  Claim C10 as stated, a 200 success for every such request, fails over a view without
  posts: the profile of user 2, who has no post, asked with a timestamp and no id, is
  answered with status 204.
\<close>

theorem partial_cursor_empty_feed_counterexample:
  "GET (example_request ''GET'' None [(''timestamp'', ''5''), (''user_id'', ''2'')] Empty_body)
     ''post_id'' = None \<and>
   get_more_posts example_lib
     (example_request ''GET'' None [(''timestamp'', ''5''), (''user_id'', ''2'')] Empty_body)
     ''profile'' example_db = JsonResponse (Posts_payload [] False) 204"
  by code_simp

section \<open>Ownership in the update entry point\<close>

lemma find_post_id: "find (\<lambda>p. post_id p = pid) ps = Some post \<Longrightarrow> post_id post = pid \<and> post \<in> set ps"
  by (auto simp: find_Some_iff)

text \<open>
  Claim C8. For an authenticated requester and an existing post, through
  \<^verbatim>\<open>update_post\<close>: the actions \<^verbatim>\<open>edit\<close> and \<^verbatim>\<open>delete\<close> of a requester who is
  not the owner of the post are answered with status 403 ``Unauthorized.'' and leave the
  database, so the content and the existence of the post, as it was: an edit or delete
  that succeeds is one by the owner. The action \<^verbatim>\<open>like\<close> is carried out whoever
  owns the post: on a consistent database that holds the row of the requester it is
  answered with status 200 and flips the like edge of the requester.
\<close>

theorem update_post_ownership:
  assumes "req_user request = Some u"
    and "http_method request = ''PUT'' \<or> http_method request = ''DELETE''"
    and "find (\<lambda>p. post_id p = pid) (posts d) = Some post"
  shows "(post_user post \<noteq> u \<and> get_body_content lib request ''action'' = Inr (JStr ''edit'') \<longrightarrow>
            update_post lib request pid d =
              (JsonResponse (Edit_error_payload (Some ''Unauthorized.'')) 403, d)) \<and>
         (post_user post \<noteq> u \<and> get_body_content lib request ''action'' = Inr (JStr ''delete'') \<longrightarrow>
            update_post lib request pid d = (JsonResponse (Error_payload ''Unauthorized.'') 403, d)) \<and>
         (counters_consistent d \<and> u \<in> set (map user_id (users d)) \<and>
          get_body_content lib request ''action'' = Inr (JStr ''like'') \<longrightarrow>
            (\<exists>n d'. update_post lib request pid d =
                 (JsonResponse (Liked_payload ((u, pid) \<notin> set (likes d)) n) 200, d') \<and>
               ((u, pid) \<in> set (likes d')) = ((u, pid) \<notin> set (likes d)) \<and>
               counters_consistent d'))"
proof (intro conjI impI)
  assume "post_user post \<noteq> u \<and> get_body_content lib request ''action'' = Inr (JStr ''edit'')"
  then show "update_post lib request pid d =
              (JsonResponse (Edit_error_payload (Some ''Unauthorized.'')) 403, d)"
    using assms by (auto simp: update_post_def require_http_methods_def edit_post_def)
next
  assume "post_user post \<noteq> u \<and> get_body_content lib request ''action'' = Inr (JStr ''delete'')"
  then show "update_post lib request pid d = (JsonResponse (Error_payload ''Unauthorized.'') 403, d)"
    using assms by (auto simp: update_post_def require_http_methods_def)
next
  assume h: "counters_consistent d \<and> u \<in> set (map user_id (users d)) \<and>
          get_body_content lib request ''action'' = Inr (JStr ''like'')"
  have pid: "post_id post = pid" and mem: "pid \<in> post_id ` set (posts d)"
    using find_post_id [OF assms(3)] by auto
  have up: "update_post lib request pid d =
     (case like_post pid u d of
        Inl e \<Rightarrow> (Unhandled e, d)
      | Inr ((liked, row), d') \<Rightarrow> (JsonResponse (Liked_payload liked (like_count row)) 200, d'))"
    using assms h pid by (auto simp: update_post_def require_http_methods_def)
  show "\<exists>n d'. update_post lib request pid d =
                 (JsonResponse (Liked_payload ((u, pid) \<notin> set (likes d)) n) 200, d') \<and>
               ((u, pid) \<in> set (likes d')) = ((u, pid) \<notin> set (likes d)) \<and>
               counters_consistent d'"
  proof (cases "(u, pid) \<in> set (likes d)")
    case True
    from like_post_remove [OF _ mem True] h obtain r d' where
      "like_post pid u d = Inr ((False, r), d')" "counters_consistent d'"
      "likes d' = removeAll (u, pid) (likes d)"
      by blast
    then show ?thesis using up True by auto
  next
    case False
    from like_post_add [OF _ mem False] h obtain r d' where
      "like_post pid u d = Inr ((True, r), d')" "counters_consistent d'"
      "likes d' = likes d @ [(u, pid)]"
      by blast
    then show ?thesis using up False by auto
  qed
qed

theorem update_post_ownership_witness:
  "update_post example_lib (example_request ''PUT'' (Some 2) []
       (Json (JDict [(''action'', JStr ''edit''), (''content'', JStr ''new'')]))) 10 example_db =
     (JsonResponse (Edit_error_payload (Some ''Unauthorized.'')) 403, example_db) \<and>
   update_post example_lib (example_request ''DELETE'' (Some 2) []
       (Json (JDict [(''action'', JStr ''delete'')]))) 10 example_db =
     (JsonResponse (Error_payload ''Unauthorized.'') 403, example_db) \<and>
   (\<exists>n d'. update_post example_lib (example_request ''PUT'' (Some 2) []
       (Json (JDict [(''action'', JStr '' like '')]))) 10 example_db =
     (JsonResponse (Liked_payload True n) 200, d') \<and>
     (2, 10) \<in> set (likes d') \<and> counters_consistent d')"
proof -
  let ?e = "example_request ''PUT'' (Some 2) []
       (Json (JDict [(''action'', JStr ''edit''), (''content'', JStr ''new'')]))"
  let ?d = "example_request ''DELETE'' (Some 2) [] (Json (JDict [(''action'', JStr ''delete'')]))"
  let ?l = "example_request ''PUT'' (Some 2) [] (Json (JDict [(''action'', JStr '' like '')]))"
  have u: "req_user ?e = Some 2" "req_user ?d = Some 2" "req_user ?l = Some 2"
    by (simp_all add: example_request_def)
  have m: "http_method ?e = ''PUT'' \<or> http_method ?e = ''DELETE''"
    "http_method ?d = ''PUT'' \<or> http_method ?d = ''DELETE''"
    "http_method ?l = ''PUT'' \<or> http_method ?l = ''DELETE''"
    by (simp_all add: example_request_def)
  have f: "find (\<lambda>p. post_id p = 10) (posts example_db) = Some (example_post 10 1 5)"
    by (simp add: example_db_def example_post_def)
  have a: "post_user (example_post 10 1 5) \<noteq> 2 \<and>
           get_body_content example_lib ?e ''action'' = Inr (JStr ''edit'')"
    by code_simp
  have b: "post_user (example_post 10 1 5) \<noteq> 2 \<and>
           get_body_content example_lib ?d ''action'' = Inr (JStr ''delete'')"
    by code_simp
  have c: "counters_consistent example_db \<and> 2 \<in> set (map user_id (users example_db)) \<and>
           get_body_content example_lib ?l ''action'' = Inr (JStr ''like'')"
    by code_simp
  have n: "(2, 10) \<notin> set (likes example_db)" by (simp add: example_db_def)
  have r1: "update_post example_lib ?e 10 example_db =
     (JsonResponse (Edit_error_payload (Some ''Unauthorized.'')) 403, example_db)"
    using update_post_ownership [OF u(1) m(1) f, of example_lib] a by blast
  have r2: "update_post example_lib ?d 10 example_db =
     (JsonResponse (Error_payload ''Unauthorized.'') 403, example_db)"
    using update_post_ownership [OF u(2) m(2) f, of example_lib] b by blast
  have r3: "\<exists>n d'. update_post example_lib ?l 10 example_db =
                 (JsonResponse (Liked_payload ((2, 10) \<notin> set (likes example_db)) n) 200, d') \<and>
               ((2, 10) \<in> set (likes d')) = ((2, 10) \<notin> set (likes example_db)) \<and>
               counters_consistent d'"
    using update_post_ownership [OF u(3) m(3) f, of example_lib] c by blast
  show ?thesis using r1 r2 r3 n by simp
qed

end
